theory Spec2Isabelle
  imports Complex_Main "HOL-Library.Monad_Syntax" "HOL-Library.Product_Lexorder"
begin

section \<open>k-point symmetry bookkeeping of \<^verbatim>\<open>pyscf/pbc/lib/kpts.py\<close>\<close>

text \<open>
  The development embeds the orbit builder, the pair-orbit builder, the transport of
  orbital coefficients, the occupation check and the pair-list constructor of
  \<^verbatim>\<open>src/pyscf/pbc/lib/kpts.py\<close>.

  Conventions of the embedding.
  \<^item> A numpy array of integers is an \<open>int list\<close>; where the code only ever stores loop
    counters or results of \<^verbatim>\<open>np.where\<close> (never negative) it is a \<open>nat list\<close>.
  \<^item> A float64 is an exact rational (\<open>rat\<close>); rounding of the floating-point unit is
    not part of the model. Complex coefficients are \<open>complex\<close>.
  \<^item> A raised exception is the value \<open>None\<close> of an \<open>option\<close> result (for
    \<^verbatim>\<open>check_mo_occ_symmetry\<close>, whose error is the subject of a claim, a sum type names
    the exception).
  \<^item> Float arrays that the pair builder modifies in place live in a store of arrays
    (\<open>heap\<close>); the object's attribute holds the address.
  \<^item> The result of the tolerant matcher \<^verbatim>\<open>map_k_points_fast\<close> (floating-point clustering),
    the conversion between absolute and scaled coordinates, the coordinate test of
    lines 81--83 and the parent class \<^verbatim>\<open>symm.Symmetry\<close> are parameters (\<open>env\<close>).
\<close>

subsection \<open>Python and numpy primitives\<close>

type_synonym vec = "rat list"
type_synonym mat = "rat list list"
type_synonym cmat = "complex list list"

text \<open>Python subscripting: a negative index counts from the end; out of range raises.\<close>

definition py_index :: "nat \<Rightarrow> int \<Rightarrow> nat option" where
  "py_index n i =
     (if 0 \<le> i \<and> i < int n then Some (nat i)
      else if - int n \<le> i \<and> i < 0 then Some (nat (i + int n))
      else None)"

definition getitem :: "'a list \<Rightarrow> int \<Rightarrow> 'a option" where
  "getitem xs i = map_option (\<lambda>j. xs ! j) (py_index (length xs) i)"

text \<open>\<^verbatim>\<open>a[idx]\<close> for an index array \<^verbatim>\<open>idx\<close>: a new array.\<close>

definition getitem_fancy :: "'a list \<Rightarrow> int list \<Rightarrow> 'a list option" where
  "getitem_fancy a idx = those (map (getitem a) idx)"

text \<open>\<^verbatim>\<open>a[idx] = v\<close> for an index array and a scalar: the writes happen in order.\<close>

fun setitem_scalar :: "'a list \<Rightarrow> int list \<Rightarrow> 'a \<Rightarrow> 'a list option" where
  "setitem_scalar a [] v = Some a"
| "setitem_scalar a (i # idx) v =
     (case py_index (length a) i of
        None \<Rightarrow> None
      | Some j \<Rightarrow> setitem_scalar (a[j := v]) idx v)"

text \<open>\<^verbatim>\<open>a[idx] = vals\<close> for an index array and an array of values of the same length.\<close>

fun setitem_array :: "'a list \<Rightarrow> int list \<Rightarrow> 'a list \<Rightarrow> 'a list option" where
  "setitem_array a [] [] = Some a"
| "setitem_array a (i # idx) (v # vals) =
     (case py_index (length a) i of
        None \<Rightarrow> None
      | Some j \<Rightarrow> setitem_array (a[j := v]) idx vals)"
| "setitem_array a _ _ = None"

text \<open>\<^verbatim>\<open>np.bincount\<close>: negative entries are refused; the result has \<open>max + 1\<close> entries.\<close>

definition bincount :: "int list \<Rightarrow> nat list option" where
  "bincount xs =
     (if \<exists>x\<in>set xs. x < 0 then None
      else Some (map (\<lambda>i. count_list xs (int i)) [0..<nat (fold max xs (- 1) + 1)]))"

text \<open>\<^verbatim>\<open>np.where(a == v)[0]\<close>.\<close>

definition where_eq :: "int list \<Rightarrow> int \<Rightarrow> nat list" where
  "where_eq a v = filter (\<lambda>k. a ! k = v) [0..<length a]"

text \<open>
  \<^verbatim>\<open>np.unique(..., return_index=True)\<close>: the distinct values in increasing order, and
  for each the position of its first occurrence. For the columns of a two-row array
  (\<^verbatim>\<open>axis=1\<close>) the values are pairs, ordered lexicographically.
\<close>

definition first_index :: "'a list \<Rightarrow> 'a \<Rightarrow> nat" where
  "first_index xs v = length (takeWhile (\<lambda>x. x \<noteq> v) xs)"

definition np_unique :: "('a::linorder) list \<Rightarrow> 'a list" where
  "np_unique xs = sort (remdups xs)"

definition np_unique_index :: "('a::linorder) list \<Rightarrow> nat list" where
  "np_unique_index xs = map (first_index xs) (np_unique xs)"

text \<open>Column \<open>io\<close> of a two-dimensional array kept as a list of rows.\<close>

definition column :: "'a list list \<Rightarrow> nat \<Rightarrow> 'a list option" where
  "column tab io = those (map (\<lambda>row. getitem row (int io)) tab)"

text \<open>
  Modelled from the spec: \<^verbatim>\<open>lib.cartesian_prod\<close> is not among the sources. The spec
  describes the pair image as \<open>(table[i][op], table[j][op])\<close> at the flat index
  \<open>i * N + j\<close>, so the product lists its rows with the first component varying slowest.
\<close>

definition cartesian_prod :: "'a list \<Rightarrow> 'b list \<Rightarrow> ('a \<times> 'b) list" where
  "cartesian_prod xs ys = concat (map (\<lambda>x. map (\<lambda>y. (x, y)) ys) xs)"

subsection \<open>The store of float arrays\<close>

type_synonym addr = nat
type_synonym heap = "rat list list"

definition alloc :: "heap \<Rightarrow> rat list \<Rightarrow> addr \<times> heap" where
  "alloc h xs = (length h, h @ [xs])"

definition deref :: "heap \<Rightarrow> addr \<Rightarrow> rat list option" where
  "deref h a = (if a < length h then Some (h ! a) else None)"

subsection \<open>The object\<close>

text \<open>
  A symmetry operation as the code reads it: the two flags, and the rotation in the
  basis of the reciprocal lattice (\<^verbatim>\<open>op.a2b(cell).rot\<close>).
\<close>

record sym_op =
  is_eye :: bool
  is_inversion :: bool
  rot_b :: mat

text \<open>What \<^verbatim>\<open>symm.Symmetry.build\<close> leaves on the object.\<close>

record symmetry =
  sym_ops :: "sym_op list"
  sym_has_inversion :: bool
  sym_Dmats :: "mat list list"

record kpoints =
  cell_built :: bool
  ops :: "sym_op list"
  has_inversion :: bool
  Dmats :: "mat list list"
  time_reversal :: bool
  kpts :: "vec list"
  kpts_ibz :: "vec list"
  kpts_scaled :: "vec list option"
  kpts_scaled_ibz :: "vec list option"
  weights :: "rat list"
  weights_ibz :: "rat list"
  bz2ibz :: "int list"
  ibz2bz :: "nat list"
  k2opk :: "int list list option"
  stars :: "nat list list"
  stars_ops :: "nat list list"
  stars_ops_bz :: "nat list"
  time_reversal_symm_bz :: "nat list"
  nkpts :: nat
  nkpts_ibz :: nat
  ibz2bz_kk :: "nat list option"
  ibz_kk_weight :: "addr option"
  ibz2bz_kk_s2 :: "nat list option"
  ibz_kk_s2_weight :: "addr option"
  bz2ibz_kk :: "int list option"
  kk_group :: "int list list option"
  kk_sym_group :: "nat list list option"

text \<open>The collaborators that are not embedded.\<close>

record env =
  map_k_points_fast :: "vec list \<Rightarrow> mat list \<Rightarrow> int list list"
  symmetry_build :: "bool \<Rightarrow> bool \<Rightarrow> symmetry"
  get_scaled_kpt :: "vec \<Rightarrow> vec"
  get_abs_kpt :: "vec \<Rightarrow> vec"
  connects :: "vec \<Rightarrow> vec \<Rightarrow> mat \<Rightarrow> bool"
  junk_k :: "nat \<Rightarrow> int"
  junk_kk :: "nat \<Rightarrow> int"
  symm_transform_mo_coeff :: "vec \<Rightarrow> cmat \<Rightarrow> sym_op \<Rightarrow> mat list \<Rightarrow> cmat"

text \<open>\<^verbatim>\<open>np.empty(n, int)\<close>: \<open>n\<close> entries of unspecified content.\<close>

definition np_empty :: "(nat \<Rightarrow> int) \<Rightarrow> nat \<Rightarrow> int list" where
  "np_empty junk n = map junk [0..<n]"


definition setitem :: "'a list \<Rightarrow> int \<Rightarrow> 'a \<Rightarrow> 'a list option" where
  "setitem xs i v = map_option (\<lambda>j. xs[j := v]) (py_index (length xs) i)"

subsection \<open>The orbit builder: \<^verbatim>\<open>make_kpts_ibz\<close>\<close>

text \<open>Lines 44--46: the rotations handed to the matcher, doubled under time reversal.\<close>

definition op_rot_of :: "kpoints \<Rightarrow> mat list" where
  "op_rot_of kp =
     (let op_rot = map rot_b (ops kp)
      in if time_reversal kp then op_rot @ map (map (map uminus)) op_rot else op_rot)"

text \<open>
  Lines 56--59, for \<open>k\<close> from \<open>nkpts - 1\<close> down to \<open>0\<close>: an unclaimed point becomes a
  representative and claims every image in its row of the table. The sentinel \<open>-1\<close> in
  a row addresses the last slot of the array, which is why it has \<open>nkpts + 1\<close> slots.
\<close>

fun kpts_claim_loop ::
  "int list list \<Rightarrow> nat \<Rightarrow> int list \<Rightarrow> nat list \<Rightarrow> (int list \<times> nat list) option" where
  "kpts_claim_loop tab 0 bz2bz_k ibz2bz_k = Some (bz2bz_k, ibz2bz_k)"
| "kpts_claim_loop tab (Suc k) bz2bz_k ibz2bz_k =
     do {
       c \<leftarrow> getitem bz2bz_k (int k);
       if c = - 1 then
         do {
           row \<leftarrow> getitem tab (int k);
           b \<leftarrow> setitem_scalar bz2bz_k row (int k);
           kpts_claim_loop tab k b (ibz2bz_k @ [k])
         }
       else kpts_claim_loop tab k bz2bz_k ibz2bz_k
     }"

text \<open>
  Lines 78--86 and 95--102: the first operation, among those whose column of the table
  has no sentinel, that connects the representative to the point.
\<close>

fun find_conn ::
  "env \<Rightarrow> int list list \<Rightarrow> vec \<Rightarrow> vec \<Rightarrow> (nat \<times> mat) list \<Rightarrow> nat option option" where
  "find_conn env tab bz_k ibz_k [] = Some None"
| "find_conn env tab bz_k ibz_k ((io, rot) # rest) =
     do {
       col \<leftarrow> column tab io;
       if - 1 \<in> set col then find_conn env tab bz_k ibz_k rest
       else if connects env bz_k ibz_k rot then Some (Some io)
       else find_conn env tab bz_k ibz_k rest
     }"

text \<open>Lines 74--86.\<close>

fun conn_loop ::
  "env \<Rightarrow> int list list \<Rightarrow> mat list \<Rightarrow> nat \<Rightarrow> nat list \<Rightarrow> kpoints \<Rightarrow> kpoints option" where
  "conn_loop env tab op_rot nop [] kp = Some kp"
| "conn_loop env tab op_rot nop (k # ks) kp =
     do {
       scaled \<leftarrow> kpts_scaled kp;
       bz_k_scaled \<leftarrow> getitem scaled (int k);
       ibz_idx \<leftarrow> getitem (bz2ibz kp) (int k);
       scaled_ibz \<leftarrow> kpts_scaled_ibz kp;
       ibz_k_scaled \<leftarrow> getitem scaled_ibz ibz_idx;
       found \<leftarrow> find_conn env tab bz_k_scaled ibz_k_scaled (enumerate 0 op_rot);
       kp' \<leftarrow>
         (case found of
            None \<Rightarrow> Some kp
          | Some io \<Rightarrow>
              do {
                trs \<leftarrow> setitem (time_reversal_symm_bz kp) (int k) (io div nop);
                sob \<leftarrow> setitem (stars_ops_bz kp) (int k) (io mod nop);
                Some (kp\<lparr>time_reversal_symm_bz := trs, stars_ops_bz := sob\<rparr>)
              });
       conn_loop env tab op_rot nop ks kp'
     }"

text \<open>Lines 93--102: the connecting operation of every member of orbit \<open>i\<close>.\<close>

fun star_ops_loop ::
  "env \<Rightarrow> int list list \<Rightarrow> mat list \<Rightarrow> nat \<Rightarrow> vec list option \<Rightarrow> vec \<Rightarrow> nat \<Rightarrow> nat list \<Rightarrow>
   nat list list \<Rightarrow> nat list list option" where
  "star_ops_loop env tab op_rot nop scaled ibz_k_scaled i [] sops = Some sops"
| "star_ops_loop env tab op_rot nop scaled ibz_k_scaled i (m # ms) sops =
     do {
       sc \<leftarrow> scaled;
       bz_k_scaled \<leftarrow> getitem sc (int m);
       found \<leftarrow> find_conn env tab bz_k_scaled ibz_k_scaled (enumerate 0 op_rot);
       sops' \<leftarrow>
         (case found of
            None \<Rightarrow> Some sops
          | Some io \<Rightarrow>
              do {
                l \<leftarrow> getitem sops (int i);
                setitem sops (int i) (l @ [io mod nop])
              });
       star_ops_loop env tab op_rot nop scaled ibz_k_scaled i ms sops'
     }"

text \<open>Lines 88--102. Both \<^verbatim>\<open>stars\<close> and \<^verbatim>\<open>stars_ops\<close> are appended to, never reset.\<close>

fun stars_loop ::
  "env \<Rightarrow> int list list \<Rightarrow> mat list \<Rightarrow> nat \<Rightarrow> nat list \<Rightarrow> kpoints \<Rightarrow> kpoints option" where
  "stars_loop env tab op_rot nop [] kp = Some kp"
| "stars_loop env tab op_rot nop (i # is) kp =
     do {
       let sops = stars_ops kp @ [[]];
       scaled_ibz \<leftarrow> kpts_scaled_ibz kp;
       ibz_k_scaled \<leftarrow> getitem scaled_ibz (int i);
       let idx = where_eq (bz2ibz kp) (int i);
       let st = stars kp @ [idx];
       sops' \<leftarrow> star_ops_loop env tab op_rot nop (kpts_scaled kp) ibz_k_scaled i idx sops;
       stars_loop env tab op_rot nop is (kp\<lparr>stars := st, stars_ops := sops'\<rparr>)
     }"

text \<open>
  Lines 54--65: the claim loop, then the inversion of its result. \<open>ibz2bz_k\<close> lists the
  representatives in increasing order; the buffer of line 63 is uninitialised but for
  the slots of the representatives.
\<close>

definition orbit_maps :: "(nat \<Rightarrow> int) \<Rightarrow> int list list \<Rightarrow> nat \<Rightarrow> (nat list \<times> int list) option" where
  "orbit_maps junk bz2bz_ks n =
     do {
       (bz2bz_k, found) \<leftarrow> kpts_claim_loop bz2bz_ks n (replicate (n + 1) (- 1)) [];
       let ibz2bz_k = rev found;
       let bz2bz_k = butlast bz2bz_k;
       buf \<leftarrow> setitem_array (np_empty junk n) (map int ibz2bz_k)
                (map int [0..<length ibz2bz_k]);
       bz2ibz_k \<leftarrow> getitem_fancy buf bz2bz_k;
       Some (ibz2bz_k, bz2ibz_k)
     }"

definition make_kpts_ibz :: "env \<Rightarrow> kpoints \<Rightarrow> kpoints option" where
  "make_kpts_ibz env kp =
     do {
       let n = nkpts kp;
       let nop = length (ops kp);
       let op_rot = op_rot_of kp;
       scaled \<leftarrow> kpts_scaled kp;
       let bz2bz_ks = map_k_points_fast env scaled op_rot;
       (ibz2bz_k, bz2ibz_k) \<leftarrow> orbit_maps (junk_k env) bz2bz_ks n;
       counts \<leftarrow> bincount bz2ibz_k;
       if n = 0 then None
       else
         do {
           scaled_ibz \<leftarrow> getitem_fancy scaled (map int ibz2bz_k);
           let abs_ibz = map (get_abs_kpt env) scaled_ibz;
           let kp1 = kp\<lparr>k2opk := Some bz2bz_ks, bz2ibz := bz2ibz_k, ibz2bz := ibz2bz_k,
                        weights_ibz := map (\<lambda>c. of_nat c * (1 / of_nat n)) counts,
                        kpts_scaled_ibz := Some scaled_ibz, kpts_ibz := abs_ibz,
                        nkpts_ibz := length abs_ibz\<rparr>;
           kp2 \<leftarrow> conn_loop env bz2bz_ks op_rot nop [0..<n] kp1;
           stars_loop env bz2bz_ks op_rot nop [0..<nkpts_ibz kp2] kp2
         }
     }"

subsection \<open>The pair-orbit builder: \<^verbatim>\<open>make_kpairs_ibz\<close>\<close>

text \<open>\<^verbatim>\<open>bz2bz_ks.shape[-1]\<close> for a table kept as a list of rows.\<close>

definition ncols :: "'a list list \<Rightarrow> nat" where
  "ncols tab = (case tab of [] \<Rightarrow> 0 | row # _ \<Rightarrow> length row)"

text \<open>Lines 128--130: the flat index of an image pair; no image if a component has none.\<close>

definition pair_image :: "nat \<Rightarrow> int \<times> int \<Rightarrow> int" where
  "pair_image nbzk = (\<lambda>(x, y). if x = - 1 \<or> y = - 1 then - 1 else x * int nbzk + y)"

text \<open>Lines 126--130: one row per operation; the row must fill \<open>nbzk * nbzk\<close> slots.\<close>

definition kpairs_table_T :: "int list list \<Rightarrow> nat \<Rightarrow> nat \<Rightarrow> int list list option" where
  "kpairs_table_T bz2bz_ks nop nbzk =
     those (map (\<lambda>iop.
       do {
         col \<leftarrow> column bz2bz_ks iop;
         let row = map (pair_image nbzk) (cartesian_prod col col);
         if length row = nbzk * nbzk then Some row else None
       }) [0..<nop])"

text \<open>Line 132: the transpose, one row per pair.\<close>

definition transpose_T :: "int list list \<Rightarrow> nat \<Rightarrow> int list list" where
  "transpose_T rows nbzk2 = map (\<lambda>k. map (\<lambda>row. row ! k) rows) [0..<nbzk2]"

text \<open>
  Lines 138--148: the claim loop over the pairs, which also records for every
  representative the distinct images and the first operation reaching each.
\<close>

fun kpairs_claim_loop ::
  "int list list \<Rightarrow> nat \<Rightarrow> int list \<Rightarrow> nat list \<Rightarrow> int list list \<Rightarrow> nat list list \<Rightarrow>
   (int list \<times> nat list \<times> int list list \<times> nat list list) option" where
  "kpairs_claim_loop tab 0 bz2bz_kk found k_group sym_group =
     Some (bz2bz_kk, found, k_group, sym_group)"
| "kpairs_claim_loop tab (Suc k) bz2bz_kk found k_group sym_group =
     do {
       c \<leftarrow> getitem bz2bz_kk (int k);
       if c = - 1 then
         do {
           row \<leftarrow> getitem tab (int k);
           b \<leftarrow> setitem_scalar bz2bz_kk row (int k);
           let k_idx = np_unique row;
           let op_idx = np_unique_index row;
           first \<leftarrow> getitem k_idx 0;
           let k_idx = (if first = - 1 then tl k_idx else k_idx);
           let op_idx = (if first = - 1 then tl op_idx else op_idx);
           kpairs_claim_loop tab k b (found @ [k]) (k_group @ [k_idx]) (sym_group @ [op_idx])
         }
       else kpairs_claim_loop tab k bz2bz_kk found k_group sym_group
     }"

text \<open>Line 180: \<^verbatim>\<open>w[np.where(idx_i != idx_j)[0]] *= 2.\<close>, in place.\<close>

definition double_offdiag :: "nat list \<Rightarrow> nat list \<Rightarrow> rat list \<Rightarrow> rat list" where
  "double_offdiag idx_i idx_j w =
     fold (\<lambda>t w. w[t := w ! t * 2]) (filter (\<lambda>t. idx_i ! t \<noteq> idx_j ! t) [0..<length idx_i]) w"

text \<open>Lines 181--183: the attribute is read through the object at every step.\<close>

fun halve_loop :: "nat list \<Rightarrow> nat list \<Rightarrow> addr \<Rightarrow> nat list \<Rightarrow> heap \<Rightarrow> heap option" where
  "halve_loop idx_ji reps a [] h = Some h"
| "halve_loop idx_ji reps a (i # is) h =
     do {
       w \<leftarrow> deref h a;
       ji \<leftarrow> getitem idx_ji (int i);
       if ji \<notin> set reps then
         do {
           x \<leftarrow> getitem w (int i);
           halve_loop idx_ji reps a is (h[a := w[i := x / 2]])
         }
       else halve_loop idx_ji reps a is h
     }"

text \<open>Lines 165--183: the reduction under the exchange of the two points of a pair.\<close>

definition permutation_step :: "nat \<Rightarrow> nat list \<Rightarrow> kpoints \<times> heap \<Rightarrow> (kpoints \<times> heap) option" where
  "permutation_step nbzk reps = (\<lambda>(kp, h).
     do {
       let idx_i = map (\<lambda>p. p div nbzk) reps;
       let idx_j = map (\<lambda>p. p mod nbzk) reps;
       let idx_ij_sort = map (\<lambda>(i, j). (min i j, max i j)) (zip idx_i idx_j);
       let idx_ij_s2 = np_unique_index idx_ij_sort;
       reps_s2 \<leftarrow> getitem_fancy reps (map int idx_ij_s2);
       let kp1 = kp\<lparr>ibz2bz_kk_s2 := Some reps_s2\<rparr>;
       a \<leftarrow> ibz_kk_weight kp1;
       w \<leftarrow> deref h a;
       w_s2 \<leftarrow> getitem_fancy w (map int idx_ij_s2);
       let (a_s2, h1) = alloc h w_s2;
       let kp2 = kp1\<lparr>ibz_kk_s2_weight := Some a_s2\<rparr>;
       let idx_i = map (\<lambda>p. p div nbzk) reps_s2;
       let idx_j = map (\<lambda>p. p mod nbzk) reps_s2;
       let idx_ji = map (\<lambda>(i, j). j * nbzk + i) (zip idx_i idx_j);
       a2 \<leftarrow> ibz_kk_s2_weight kp2;
       w2 \<leftarrow> deref h1 a2;
       let h2 = h1[a2 := double_offdiag idx_i idx_j w2];
       a3 \<leftarrow> ibz_kk_s2_weight kp2;
       w3 \<leftarrow> deref h2 a3;
       all_reps \<leftarrow> ibz2bz_kk kp2;
       h3 \<leftarrow> halve_loop idx_ji all_reps a3 [0..<length w3] h2;
       Some (kp2, h3)
     })"

definition make_kpairs_ibz :: "env \<Rightarrow> bool \<Rightarrow> kpoints \<times> heap \<Rightarrow> (kpoints \<times> heap) option" where
  "make_kpairs_ibz env permutation_symmetry = (\<lambda>(kp, h).
     do {
       bz2bz_ks \<leftarrow> k2opk kp;
       let nop = ncols bz2bz_ks;
       let nbzk = nkpts kp;
       let nbzk2 = nbzk * nbzk;
       bz2bz_ksks_T \<leftarrow> kpairs_table_T bz2bz_ks nop nbzk;
       let bz2bz_ksks = transpose_T bz2bz_ksks_T nbzk2;
       (bz2bz_kk, found, k_group, sym_group) \<leftarrow>
          kpairs_claim_loop bz2bz_ksks nbzk2 (replicate (nbzk2 + 1) (- 1)) [] [] [];
       let reps = rev found;
       let kp1 = kp\<lparr>ibz2bz_kk := Some reps\<rparr>;
       let bz2bz_kk = butlast bz2bz_kk;
       buf \<leftarrow> setitem_array (np_empty (junk_kk env) nbzk2) (map int reps)
                (map int [0..<length reps]);
       bz2ibz \<leftarrow> getitem_fancy buf bz2bz_kk;
       counts \<leftarrow> bincount bz2ibz;
       if nbzk2 = 0 then None
       else
         do {
           let (a, h1) = alloc h (map (\<lambda>c. of_nat c * (1 / of_nat nbzk2)) counts);
           let kp2 = kp1\<lparr>bz2ibz_kk := Some bz2ibz, kk_group := Some (rev k_group),
                         kk_sym_group := Some (rev sym_group), ibz_kk_weight := Some a\<rparr>;
           if permutation_symmetry then permutation_step nbzk reps (kp2, h1)
           else Some (kp2, h1)
         }
     })"

subsection \<open>Construction and \<^verbatim>\<open>build\<close>\<close>


text \<open>
  \<^verbatim>\<open>KPoints.build\<close> (lines 613--624). Without a built cell the method returns after the
  parent's build; \<^verbatim>\<open>dump_info\<close> only logs.
\<close>

definition build ::
  "env \<Rightarrow> bool \<Rightarrow> bool \<Rightarrow> bool \<Rightarrow> bool \<Rightarrow> kpoints \<times> heap \<Rightarrow> (kpoints \<times> heap) option" where
  "build env space_group_symmetry time_reversal_symmetry symmorphic make_kpairs = (\<lambda>(kp, h).
     let s = symmetry_build env space_group_symmetry symmorphic;
         kp1 = kp\<lparr>ops := sym_ops s, has_inversion := sym_has_inversion s,
                   Dmats := sym_Dmats s\<rparr>
     in if \<not> cell_built kp1 then Some (kp1, h)
        else
          do {
            let kp2 = kp1\<lparr>time_reversal := (time_reversal_symmetry \<and> \<not> has_inversion kp1)\<rparr>;
            let sc = map (get_scaled_kpt env) (kpts kp2);
            let kp3 = kp2\<lparr>kpts_scaled_ibz := Some sc, kpts_scaled := Some sc\<rparr>;
            kp4 \<leftarrow> make_kpts_ibz env kp3;
            if make_kpairs then make_kpairs_ibz env True (kp4, h) else Some (kp4, h)
          })"

subsection \<open>Transport and checks\<close>

text \<open>\<^verbatim>\<open>mo_ibz.conj()\<close>.\<close>

definition np_conj :: "cmat \<Rightarrow> cmat" where
  "np_conj m = map (map cnj) m"

text \<open>\<^verbatim>\<open>transform_mo_coeff_k\<close> (lines 388--418).\<close>

definition transform_mo_coeff_k :: "env \<Rightarrow> kpoints \<Rightarrow> cmat list \<Rightarrow> int \<Rightarrow> cmat option" where
  "transform_mo_coeff_k env kp mo_coeff_ibz k =
     do {
       ibz_k_idx \<leftarrow> getitem (bz2ibz kp) k;
       scaled_ibz \<leftarrow> kpts_scaled_ibz kp;
       ibz_k_scaled \<leftarrow> getitem scaled_ibz ibz_k_idx;
       iop \<leftarrow> getitem (stars_ops_bz kp) k;
       oper \<leftarrow> getitem (ops kp) (int iop);
       time_rev \<leftarrow> getitem (time_reversal_symm_bz kp) k;
       mo_ibz \<leftarrow> getitem mo_coeff_ibz ibz_k_idx;
       if is_eye oper then
         (if time_rev \<noteq> 0 then Some (np_conj mo_ibz) else Some mo_ibz)
       else if is_inversion oper then Some (np_conj mo_ibz)
       else
         do {
           d \<leftarrow> getitem (Dmats kp) (int iop);
           let mo_bz = symm_transform_mo_coeff env ibz_k_scaled mo_ibz oper d;
           Some (if time_rev \<noteq> 0 then np_conj mo_bz else mo_bz)
         }
     }"

datatype py_error = IndexError | ValueError | RuntimeError string

text \<open>A \<^verbatim>\<open>for\<close> loop whose body may raise: the first exception ends it.\<close>

fun for_each :: "'i list \<Rightarrow> ('i \<Rightarrow> py_error + unit) \<Rightarrow> py_error + unit" where
  "for_each [] body = Inr ()"
| "for_each (x # xs) body = (case body x of Inl e \<Rightarrow> Inl e | Inr _ \<Rightarrow> for_each xs body)"

definition lookup :: "'a list \<Rightarrow> int \<Rightarrow> py_error + 'a" where
  "lookup xs i = (case getitem xs i of None \<Rightarrow> Inl IndexError | Some x \<Rightarrow> Inr x)"

text \<open>Subtraction of two one-dimensional arrays, with numpy's broadcasting of length one.\<close>

definition np_sub :: "rat list \<Rightarrow> rat list \<Rightarrow> py_error + rat list" where
  "np_sub u v =
     (if length u = length v then Inr (map (\<lambda>(a, b). a - b) (zip u v))
      else if length u = 1 then Inr (map (\<lambda>b. hd u - b) v)
      else if length v = 1 then Inr (map (\<lambda>a. a - hd v) u)
      else Inl ValueError)"

text \<open>Line 513--514: the test of one pair of members.\<close>

definition check_pair :: "rat list list \<Rightarrow> rat \<Rightarrow> nat list \<Rightarrow> nat \<Rightarrow> nat \<Rightarrow> py_error + unit" where
  "check_pair mo_occ tol bz_k i j =
     (case lookup mo_occ (int (bz_k ! i)) of
        Inl e \<Rightarrow> Inl e
      | Inr u \<Rightarrow>
          (case lookup mo_occ (int (bz_k ! j)) of
             Inl e \<Rightarrow> Inl e
           | Inr v \<Rightarrow>
               (case np_sub u v of
                  Inl e \<Rightarrow> Inl e
                | Inr d \<Rightarrow>
                    if list_all (\<lambda>x. \<bar>x\<bar> < tol) d then Inr ()
                    else Inl (RuntimeError ''Symmetry broken''))))"

text \<open>Lines 516--517.\<close>

fun collect_ibz :: "rat list list \<Rightarrow> nat list \<Rightarrow> nat list \<Rightarrow> py_error + rat list list" where
  "collect_ibz mo_occ reps [] = Inr []"
| "collect_ibz mo_occ reps (k # ks) =
     (case lookup reps (int k) of
        Inl e \<Rightarrow> Inl e
      | Inr r \<Rightarrow>
          (case lookup mo_occ (int r) of
             Inl e \<Rightarrow> Inl e
           | Inr occ \<Rightarrow>
               (case collect_ibz mo_occ reps ks of
                  Inl e \<Rightarrow> Inl e
                | Inr rest \<Rightarrow> Inr (occ # rest))))"

text \<open>\<^verbatim>\<open>check_mo_occ_symmetry\<close> (lines 505--518).\<close>

definition check_mo_occ_symmetry :: "kpoints \<Rightarrow> rat list list \<Rightarrow> rat \<Rightarrow> py_error + rat list list" where
  "check_mo_occ_symmetry kp mo_occ tol =
     (case for_each (stars kp) (\<lambda>bz_k.
             for_each [0..<length bz_k] (\<lambda>i.
               for_each [i + 1..<length bz_k] (\<lambda>j. check_pair mo_occ tol bz_k i j))) of
        Inl e \<Rightarrow> Inl e
      | Inr _ \<Rightarrow> collect_ibz mo_occ (ibz2bz kp) [0..<nkpts_ibz kp])"

text \<open>
  Modelled from the spec: \<^verbatim>\<open>kpts_helper.member\<close> is not among the sources. The list
  constructor compares k-points by their coordinates (the spec's "equal", the docstring's
  \<^verbatim>\<open>k_ibz != k_bz\<close>); \<open>member_kpt\<close> returns the positions of the k-points of the list that
  equal the given one, the tolerance of the comparison idealised to equality.
\<close>

definition member_kpt :: "vec \<Rightarrow> vec list \<Rightarrow> nat list" where
  "member_kpt kpt ks = filter (\<lambda>j. ks ! j = kpt) [0..<length ks]"

text \<open>\<^verbatim>\<open>KPoints.make_gdf_kptij_lst_jk\<close> (lines 634--650).\<close>

definition make_gdf_kptij_lst_jk :: "kpoints \<Rightarrow> (vec \<times> vec) list option" where
  "make_gdf_kptij_lst_jk kp =
     do {
       diag \<leftarrow> those (map (\<lambda>i. do { k \<leftarrow> getitem (kpts kp) (int i); Some (k, k) })
                       [0..<nkpts kp]);
       rest \<leftarrow> those (map (\<lambda>i.
                 do {
                   ki \<leftarrow> getitem (kpts_ibz kp) (int i);
                   let wh = member_kpt ki (kpts kp);
                   rows \<leftarrow> those (map (\<lambda>j.
                             do {
                               kj \<leftarrow> getitem (kpts kp) (int j);
                               Some (if j \<notin> set wh then [(ki, kj)] else [])
                             }) [0..<nkpts kp]);
                   Some (concat rows)
                 }) [0..<nkpts_ibz kp]);
       Some (diag @ concat rest)
     }"


subsection \<open>What the matcher's table is assumed to satisfy\<close>




text \<open>
  The same on the level of the operations: there is an identity column, every column
  has an inverse column, and any two columns compose to a third, wherever the images
  exist.
\<close>

definition group_table :: "nat \<Rightarrow> nat \<Rightarrow> int list list \<Rightarrow> bool" where
  "group_table n m tab \<longleftrightarrow>
     (\<exists>e<m. \<forall>k<n. tab ! k ! e = int k) \<and>
     (\<forall>s<m. \<exists>t<m. \<forall>k<n. \<forall>k'<n. tab ! k ! s = int k' \<longrightarrow> tab ! k' ! t = int k) \<and>
     (\<forall>s<m. \<forall>t<m. \<exists>u<m. \<forall>k<n. \<forall>k'<n. \<forall>k''<n.
         tab ! k ! s = int k' \<and> tab ! k' ! t = int k'' \<longrightarrow> tab ! k ! u = int k'')"



subsection \<open>Vocabulary of the pair reduction\<close>

text \<open>
  For the flat index \<open>p = i * n + j\<close> of a pair: the sorted pair that line 169 forms, and
  the flat index of the exchanged pair, \<^verbatim>\<open>idx_ji\<close> of line 179.
\<close>

definition pair_key :: "nat \<Rightarrow> nat \<Rightarrow> nat \<times> nat" where
  "pair_key n p = (min (p div n) (p mod n), max (p div n) (p mod n))"

definition swap_pair :: "nat \<Rightarrow> nat \<Rightarrow> nat" where
  "swap_pair n p = (p mod n) * n + p div n"

text \<open>
  The weight rule in the words of the specification: the unreduced weight doubled,
  unless the exchanged pair is absent from the list, in which case halved instead.
\<close>

definition spec_s2_weight :: "nat \<Rightarrow> nat list \<Rightarrow> nat \<Rightarrow> rat \<Rightarrow> rat" where
  "spec_s2_weight n lst p w = (if swap_pair n p \<in> set lst then 2 * w else w / 2)"

text \<open>
  The pair list in the words of the specification: every BZ point with itself, then
  every representative with every BZ point that equals none of the members of the
  representative's orbit.
\<close>

definition spec_kptij_lst :: "kpoints \<Rightarrow> (vec \<times> vec) list" where
  "spec_kptij_lst kp =
     map (\<lambda>i. (kpts kp ! i, kpts kp ! i)) [0..<nkpts kp] @
     concat (map (\<lambda>i.
       concat (map (\<lambda>j.
         if kpts kp ! j \<in> set (map (\<lambda>m. kpts kp ! m) (stars kp ! i)) then []
         else [(kpts_ibz kp ! i, kpts kp ! j)]) [0..<nkpts kp])) [0..<nkpts_ibz kp])"

subsection \<open>A concrete mesh\<close>

text \<open>
  Four k-points on a line, \<open>1/8\<close>, \<open>3/8\<close>, \<open>5/8\<close> and \<open>7/8\<close> of a reciprocal lattice vector,
  in a cell whose symmetry group is the identity and the inversion. The inversion
  exchanges the first point with the last and the second with the third. The
  coordinate test of lines 81--83 is evaluated exactly (rounding to the nearest integer
  differs from numpy's only at ties, where the distance is \<open>1/2\<close> either way).
\<close>

definition I3 :: mat where
  "I3 = [[1, 0, 0], [0, 1, 0], [0, 0, 1]]"

definition connects_exact :: "rat \<Rightarrow> vec \<Rightarrow> vec \<Rightarrow> mat \<Rightarrow> bool" where
  "connects_exact tol bz_k ibz_k rot =
     list_all (\<lambda>d. \<bar>d - of_int (round d)\<bar> < tol)
       (map (\<lambda>(a, b). a - b) (zip bz_k (map (\<lambda>row. sum_list (map (\<lambda>(a, b). a * b) (zip ibz_k row))) rot)))"

definition ex_ops :: "sym_op list" where
  "ex_ops = [\<lparr>is_eye = True, is_inversion = False, rot_b = I3\<rparr>,
             \<lparr>is_eye = False, is_inversion = True, rot_b = map (map uminus) I3\<rparr>]"

definition ex_table :: "int list list" where
  "ex_table = [[0, 3], [1, 2], [2, 1], [3, 0]]"

definition ex_env :: env where
  "ex_env = \<lparr>map_k_points_fast = (\<lambda>_ _. ex_table),
             symmetry_build = (\<lambda>_ _. \<lparr>sym_ops = ex_ops, sym_has_inversion = True,
                                        sym_Dmats = [[], []]\<rparr>),
             get_scaled_kpt = (\<lambda>k. k), get_abs_kpt = (\<lambda>k. k),
             connects = connects_exact (1 / 1000000),
             junk_k = (\<lambda>_. - 7), junk_kk = (\<lambda>_. - 3),
             symm_transform_mo_coeff = (\<lambda>_ m _ _. m)\<rparr>"

definition ex_mesh :: "vec list" where
  "ex_mesh = [[1 / 8, 0, 0], [3 / 8, 0, 0], [5 / 8, 0, 0], [7 / 8, 0, 0]]"


definition ex_kp0 :: kpoints where
  "ex_kp0 = \<lparr>cell_built = True, ops = [], has_inversion = False, Dmats = [],
             time_reversal = False, kpts = ex_mesh, kpts_ibz = ex_mesh,
             kpts_scaled = None, kpts_scaled_ibz = None,
             weights = [1 / 4, 1 / 4, 1 / 4, 1 / 4],
             weights_ibz = [1 / 4, 1 / 4, 1 / 4, 1 / 4],
             bz2ibz = [0, 1, 2, 3], ibz2bz = [0, 1, 2, 3], k2opk = None,
             stars = [], stars_ops = [], stars_ops_bz = [0, 0, 0, 0],
             time_reversal_symm_bz = [0, 0, 0, 0], nkpts = 4, nkpts_ibz = 4,
             ibz2bz_kk = None, ibz_kk_weight = None, ibz2bz_kk_s2 = None,
             ibz_kk_s2_weight = None, bz2ibz_kk = None, kk_group = None,
             kk_sym_group = None\<rparr>"

text \<open>The object after \<^verbatim>\<open>make_kpts_ibz\<close>, and after the whole of \<^verbatim>\<open>build\<close>.\<close>

definition ex_kp1 :: kpoints where
  "ex_kp1 = \<lparr>cell_built = True, ops = ex_ops, has_inversion = True, Dmats = [[], []],
             time_reversal = False, kpts = ex_mesh,
             kpts_ibz = [[5 / 8, 0, 0], [7 / 8, 0, 0]],
             kpts_scaled = Some ex_mesh,
             kpts_scaled_ibz = Some [[5 / 8, 0, 0], [7 / 8, 0, 0]],
             weights = [1 / 4, 1 / 4, 1 / 4, 1 / 4], weights_ibz = [1 / 2, 1 / 2],
             bz2ibz = [1, 0, 0, 1], ibz2bz = [2, 3], k2opk = Some ex_table,
             stars = [[1, 2], [0, 3]], stars_ops = [[1, 0], [1, 0]],
             stars_ops_bz = [1, 1, 0, 0], time_reversal_symm_bz = [0, 0, 0, 0],
             nkpts = 4, nkpts_ibz = 2,
             ibz2bz_kk = None, ibz_kk_weight = None, ibz2bz_kk_s2 = None,
             ibz_kk_s2_weight = None, bz2ibz_kk = None, kk_group = None,
             kk_sym_group = None\<rparr>"

definition ex_kp2 :: kpoints where
  "ex_kp2 = ex_kp1\<lparr>ibz2bz_kk := Some [8, 9, 10, 11, 12, 13, 14, 15],
                   bz2ibz_kk := Some [7, 6, 5, 4, 3, 2, 1, 0, 0, 1, 2, 3, 4, 5, 6, 7],
                   kk_group := Some [[7, 8], [6, 9], [5, 10], [4, 11], [3, 12], [2, 13],
                                     [1, 14], [0, 15]],
                   kk_sym_group := Some [[1, 0], [1, 0], [1, 0], [1, 0], [1, 0], [1, 0],
                                         [1, 0], [1, 0]],
                   ibz_kk_weight := Some 0\<rparr>"

definition ex_kp :: kpoints where
  "ex_kp = ex_kp2\<lparr>ibz2bz_kk_s2 := Some [8, 12, 9, 13, 10, 11, 15],
                  ibz_kk_s2_weight := Some 1\<rparr>"

definition ex_heap2 :: heap where
  "ex_heap2 = [[1 / 8, 1 / 8, 1 / 8, 1 / 8, 1 / 8, 1 / 8, 1 / 8, 1 / 8]]"

definition ex_heap :: heap where
  "ex_heap = ex_heap2 @ [[1 / 8, 1 / 8, 1 / 8, 1 / 8, 1 / 8, 1 / 4, 1 / 8]]"

definition ex_mo :: "cmat list" where
  "ex_mo = [[[Complex 1 2, Complex 0 1]], [[Complex 3 (- 1), Complex 2 0]]]"

section \<open>Properties\<close>

subsection \<open>The concrete mesh, evaluated\<close>


lemma ex_make_kpts_ibz: "build ex_env True True True False (ex_kp0, []) = Some (ex_kp1, [])"
  by code_simp

lemma ex_make_kpairs_ibz_s1: "make_kpairs_ibz ex_env False (ex_kp1, []) = Some (ex_kp2, ex_heap2)"
  by code_simp

lemma ex_build: "build ex_env True True True True (ex_kp0, []) = Some (ex_kp, ex_heap)"
  by code_simp

lemma ex_make_kpairs_ibz_s2: "make_kpairs_ibz ex_env True (ex_kp1, []) = Some (ex_kp, ex_heap)"
  by code_simp

subsection \<open>Subscripting\<close>

lemma py_index_nat: "i < n \<Longrightarrow> py_index n (int i) = Some i"
  by (simp add: py_index_def)

lemma py_index_less: "py_index n i = Some j \<Longrightarrow> j < n"
  by (auto simp: py_index_def split: if_splits)


lemma getitem_nat: "i < length xs \<Longrightarrow> getitem xs (int i) = Some (xs ! i)"
  by (simp add: getitem_def py_index_nat)

lemma getitem_nat_Some: "getitem xs (int i) = Some x \<Longrightarrow> i < length xs \<and> x = xs ! i"
  by (auto simp: getitem_def py_index_def split: if_splits)

lemma those_eq_Some: "those xs = Some ys \<longleftrightarrow> xs = map Some ys"
  by (induction xs arbitrary: ys) (auto split: option.splits)


lemma setitem_length: "setitem xs i v = Some ys \<Longrightarrow> length ys = length xs"
  by (auto simp: setitem_def)

subsection \<open>What \<^verbatim>\<open>make_kpts_ibz\<close> writes\<close>





subsection \<open>The in-place updates of the pair reduction\<close>

lemma fold_update_distinct:
  "distinct ts \<Longrightarrow>
     length (fold (\<lambda>t w. w[t := f (w ! t)]) ts w) = length w \<and>
     (\<forall>t<length w. fold (\<lambda>t w. w[t := f (w ! t)]) ts w ! t = (if t \<in> set ts then f (w ! t) else w ! t))"
proof (induction ts arbitrary: w)
  case Nil
  then show ?case by simp
next
  case (Cons a ts)
  have neq: "\<And>t. t \<in> set ts \<Longrightarrow> w[a := f (w ! a)] ! t = w ! t"
    using Cons.prems by (metis distinct.simps(2) nth_list_update_neq)
  from Cons show ?case by (auto simp: nth_list_update neq)
qed

lemma double_offdiag_nth:
  "length (double_offdiag ii jj w) = length w \<and>
   (\<forall>t<length w. double_offdiag ii jj w ! t =
        (if t < length ii \<and> ii ! t \<noteq> jj ! t then w ! t * 2 else w ! t))"
  unfolding double_offdiag_def
  using fold_update_distinct[of "filter (\<lambda>t. ii ! t \<noteq> jj ! t) [0..<length ii]" "\<lambda>x. x * 2" w]
  by auto

lemma deref_Some: "deref h a = Some w \<longleftrightarrow> a < length h \<and> w = h ! a"
  by (auto simp: deref_def)

lemma halve_loop_frame:
  "halve_loop idx_ji reps a is h = Some h' \<Longrightarrow>
     length h' = length h \<and> (\<forall>b. b \<noteq> a \<longrightarrow> h' ! b = h ! b)"
proof (induction "is" arbitrary: h)
  case Nil
  then show ?case by simp
next
  case (Cons i "is")
  from Cons.prems show ?case
    by (auto simp: bind_eq_Some_conv split: if_splits dest!: Cons.IH)
qed

lemma halve_loop_content:
  "halve_loop idx_ji reps a is h = Some h' \<Longrightarrow> distinct is \<Longrightarrow> a < length h \<Longrightarrow>
     length (h' ! a) = length (h ! a) \<and>
        (\<forall>i<length (h ! a). h' ! a ! i =
           (if i \<in> set is \<and> idx_ji ! i \<notin> set reps then h ! a ! i / 2 else h ! a ! i))"
proof (induction "is" arbitrary: h)
  case Nil
  then show ?case by simp
next
  case (Cons i "is")
  have d: "deref h a = Some (h ! a)" using Cons.prems(3) by (simp add: deref_def)
  have dis: "distinct is" "i \<notin> set is" using Cons.prems(2) by simp_all
  show ?case
  proof (cases "getitem idx_ji (int i)")
    case None
    with Cons.prems(1) d show ?thesis by simp
  next
    case (Some ji)
    have ji': "ji = idx_ji ! i" using getitem_nat_Some[OF Some] by simp
    show ?thesis
    proof (cases "ji \<in> set reps")
      case True
      with Cons.prems(1) d Some have "halve_loop idx_ji reps a is h = Some h'" by simp
      from Cons.IH[OF this dis(1) Cons.prems(3)] True ji' dis(2) show ?thesis by simp
    next
      case False
      show ?thesis
      proof (cases "getitem (h ! a) (int i)")
        case None
        with Cons.prems(1) d Some False show ?thesis by simp
      next
        case inner: (Some x)
        with Cons.prems(1) d Some False
        have rest: "halve_loop idx_ji reps a is (h[a := (h ! a)[i := x / 2]]) = Some h'"
          by simp
        have xi: "i < length (h ! a)" "x = h ! a ! i"
          using getitem_nat_Some[OF inner] by simp_all
        have la: "a < length (h[a := (h ! a)[i := x / 2]])" using Cons.prems(3) by simp
        have ha: "h[a := (h ! a)[i := x / 2]] ! a = (h ! a)[i := x / 2]"
          using Cons.prems(3) by simp
        from Cons.IH[OF rest dis(1) la]
        have ih: "length (h' ! a) = length (h ! a)"
          "\<And>k. k < length (h ! a) \<Longrightarrow> h' ! a ! k =
             (if k \<in> set is \<and> idx_ji ! k \<notin> set reps then (h ! a)[i := x / 2] ! k / 2
              else (h ! a)[i := x / 2] ! k)"
          unfolding ha by simp_all
        show ?thesis
        proof (intro conjI allI impI)
          show "length (h' ! a) = length (h ! a)" by (rule ih)
        next
          fix k assume k: "k < length (h ! a)"
          show "h' ! a ! k = (if k \<in> set (i # is) \<and> idx_ji ! k \<notin> set reps
                              then h ! a ! k / 2 else h ! a ! k)"
          proof (cases "k = i")
            case True
            with ih(2)[OF k] dis xi False ji' show ?thesis by simp
          next
            case neq: False
            with ih(2)[OF k] show ?thesis by simp
          qed
        qed
      qed
    qed
  qed
qed

lemma zip_div_mod:
  "map f (zip (map g xs) (map h xs)) = map (\<lambda>p. f (g p, h p)) xs"
  by (induction xs) auto

lemma getitem_fancy_nat:
  "getitem_fancy xs (map int idx) = Some ys \<longleftrightarrow> (\<forall>i\<in>set idx. i < length xs) \<and> ys = map (\<lambda>i. xs ! i) idx"
  unfolding getitem_fancy_def those_eq_Some
  by (induction idx arbitrary: ys) (auto simp: getitem_def py_index_def)

lemma permutation_step_SomeD:
  assumes "permutation_step n reps (kp, h) = Some (kp', h')"
  defines "idx \<equiv> np_unique_index (map (pair_key n) reps)"
  shows "\<exists>a all_reps.
           (\<forall>t\<in>set idx. t < length reps \<and> t < length (h ! a)) \<and>
           ibz_kk_weight kp = Some a \<and> a < length h \<and> ibz2bz_kk kp = Some all_reps \<and>
           kp' = kp\<lparr>ibz2bz_kk_s2 := Some (map (\<lambda>t. reps ! t) idx), ibz_kk_s2_weight := Some (length h)\<rparr> \<and>
           halve_loop (map (\<lambda>t. swap_pair n (reps ! t)) idx) all_reps (length h) [0..<length idx]
             ((h @ [map (\<lambda>t. h ! a ! t) idx])[length h :=
                 double_offdiag (map (\<lambda>t. reps ! t div n) idx) (map (\<lambda>t. reps ! t mod n) idx) (map (\<lambda>t. h ! a ! t) idx)]) = Some h'"
proof -
  have key: "map (\<lambda>(i, j). (min i j, max i j)) (zip (map (\<lambda>p. p div n) reps) (map (\<lambda>p. p mod n) reps))
        = map (pair_key n) reps"
    by (simp add: zip_div_mod pair_key_def)
  from assms(1) obtain reps_s2 a w w_s2 all_reps h3 where
    r: "getitem_fancy reps (map int idx) = Some reps_s2"
    and a: "ibz_kk_weight kp = Some a" and w: "deref h a = Some w"
    and ws: "getitem_fancy w (map int idx) = Some w_s2"
    and ar: "ibz2bz_kk kp = Some all_reps"
    and kp': "kp' = kp\<lparr>ibz2bz_kk_s2 := Some reps_s2, ibz_kk_s2_weight := Some (length h)\<rparr>"
    and hl: "halve_loop (map (\<lambda>(i, j). j * n + i) (zip (map (\<lambda>p. p div n) reps_s2) (map (\<lambda>p. p mod n) reps_s2)))
               all_reps (length h) [0..<length (double_offdiag (map (\<lambda>p. p div n) reps_s2) (map (\<lambda>p. p mod n) reps_s2) w_s2)]
               ((h @ [w_s2])[length h := double_offdiag (map (\<lambda>p. p div n) reps_s2) (map (\<lambda>p. p mod n) reps_s2) w_s2]) = Some h'"
    unfolding permutation_step_def Let_def key idx_def[symmetric] alloc_def
    apply (simp add: bind_eq_Some_conv deref_Some split: prod.splits)
    apply (elim exE conjE)
    apply (simp add: nth_append)
    done
  from r have r1: "\<forall>t\<in>set idx. t < length reps" and r2: "reps_s2 = map (\<lambda>t. reps ! t) idx"
    by (simp_all add: getitem_fancy_nat)
  from w have w1: "a < length h" "w = h ! a" by (simp_all add: deref_Some)
  from ws have w2: "\<forall>t\<in>set idx. t < length w" and w3: "w_s2 = map (\<lambda>t. w ! t) idx"
    by (simp_all add: getitem_fancy_nat)
  have sw: "map (\<lambda>(i, j). j * n + i) (zip (map (\<lambda>p. p div n) reps_s2) (map (\<lambda>p. p mod n) reps_s2))
      = map (\<lambda>t. swap_pair n (reps ! t)) idx"
    by (simp add: zip_div_mod r2 swap_pair_def comp_def)
  have len: "length (double_offdiag (map (\<lambda>p. p div n) reps_s2) (map (\<lambda>p. p mod n) reps_s2) w_s2) = length idx"
    by (simp add: double_offdiag_nth w3)
  have hl': "halve_loop (map (\<lambda>t. swap_pair n (reps ! t)) idx) all_reps (length h) [0..<length idx]
             ((h @ [map (\<lambda>t. h ! a ! t) idx])[length h :=
                 double_offdiag (map (\<lambda>t. reps ! t div n) idx) (map (\<lambda>t. reps ! t mod n) idx) (map (\<lambda>t. h ! a ! t) idx)]) = Some h'"
    using hl unfolding sw len by (simp add: r2 w3 w1 comp_def)
  have kp'': "kp' = kp\<lparr>ibz2bz_kk_s2 := Some (map (\<lambda>t. reps ! t) idx), ibz_kk_s2_weight := Some (length h)\<rparr>"
    using kp' r2 by simp
  have b: "\<forall>t\<in>set idx. t < length reps \<and> t < length (h ! a)"
    using r1 w2 w1 by simp
  show ?thesis
    apply (rule exI[of _ a], rule exI[of _ all_reps])
    using b a w1(1) ar kp'' hl' by blast
qed

lemma make_kpairs_ibz_SomeD:
  assumes "make_kpairs_ibz env ps (kp, h) = Some (kp', h')"
  shows "\<exists>tab T b found kg sg buf ids counts.
           k2opk kp = Some tab \<and>
           kpairs_table_T tab (ncols tab) (nkpts kp) = Some T \<and>
           kpairs_claim_loop (transpose_T T (nkpts kp * nkpts kp)) (nkpts kp * nkpts kp)
              (replicate (nkpts kp * nkpts kp + 1) (- 1)) [] [] [] = Some (b, found, kg, sg) \<and>
           setitem_array (np_empty (junk_kk env) (nkpts kp * nkpts kp)) (map int (rev found))
              (map int [0..<length (rev found)]) = Some buf \<and>
           getitem_fancy buf (butlast b) = Some ids \<and>
           bincount ids = Some counts \<and> 0 < nkpts kp \<and>
           (if ps then permutation_step (nkpts kp) (rev found)
                  (kp\<lparr>ibz2bz_kk := Some (rev found), bz2ibz_kk := Some ids,
                      kk_group := Some (rev kg), kk_sym_group := Some (rev sg),
                      ibz_kk_weight := Some (length h)\<rparr>,
                   h @ [map (\<lambda>c. of_nat c * (1 / of_nat (nkpts kp * nkpts kp))) counts]) = Some (kp', h')
            else kp' = kp\<lparr>ibz2bz_kk := Some (rev found), bz2ibz_kk := Some ids,
                      kk_group := Some (rev kg), kk_sym_group := Some (rev sg),
                      ibz_kk_weight := Some (length h)\<rparr> \<and>
                 h' = h @ [map (\<lambda>c. of_nat c * (1 / of_nat (nkpts kp * nkpts kp))) counts])"
  using assms unfolding make_kpairs_ibz_def Let_def alloc_def
  by (simp add: bind_eq_Some_conv split: prod.splits if_splits)


lemma make_kpairs_ibz_TrueD:
  assumes "make_kpairs_ibz env True (kp, h) = Some (kp', h')"
  shows "\<exists>kp1 h1 reps y z u w.
           make_kpairs_ibz env False (kp, h) = Some (kp1, h1) \<and>
           kp1 = kp\<lparr>ibz2bz_kk := Some reps, bz2ibz_kk := y, kk_group := z, kk_sym_group := u,
                     ibz_kk_weight := Some (length h)\<rparr> \<and>
           h1 = h @ [w] \<and>
           permutation_step (nkpts kp) reps (kp1, h1) = Some (kp', h')"
  using assms unfolding make_kpairs_ibz_def Let_def alloc_def
  by (auto simp: bind_eq_Some_conv split: prod.splits if_splits)



lemma swap_pair_diag: "p div n = p mod n \<Longrightarrow> swap_pair n p = p"
  unfolding swap_pair_def by (metis div_mult_mod_eq)

lemma permutation_step_weights:
  assumes ps: "permutation_step n reps (kp, h) = Some (kp', h')"
    and allr: "ibz2bz_kk kp = Some reps"
  defines "idx \<equiv> np_unique_index (map (pair_key n) reps)"
  shows "\<exists>a. ibz_kk_weight kp = Some a \<and> a < length h \<and>
           (\<forall>t\<in>set idx. t < length reps \<and> t < length (h ! a)) \<and>
           ibz2bz_kk_s2 kp' = Some (map (\<lambda>t. reps ! t) idx) \<and>
           ibz_kk_s2_weight kp' = Some (length h) \<and>
           ibz2bz_kk kp' = Some reps \<and> ibz_kk_weight kp' = Some a \<and>
           length h' = Suc (length h) \<and> h' ! a = h ! a \<and>
           length (h' ! length h) = length idx \<and>
           (\<forall>t<length idx. h' ! length h ! t =
              (if reps ! (idx ! t) div n \<noteq> reps ! (idx ! t) mod n \<and>
                  swap_pair n (reps ! (idx ! t)) \<in> set reps
               then 2 * h ! a ! (idx ! t) else h ! a ! (idx ! t)))"
proof -
  from permutation_step_SomeD[OF ps, folded idx_def] allr obtain a hh where
    P: "\<forall>t\<in>set idx. t < length reps \<and> t < length (h ! a)"
       "ibz_kk_weight kp = Some a" "a < length h"
       "kp' = kp\<lparr>ibz2bz_kk_s2 := Some (map (\<lambda>t. reps ! t) idx), ibz_kk_s2_weight := Some (length h)\<rparr>"
    and hl: "halve_loop (map (\<lambda>t. swap_pair n (reps ! t)) idx) reps (length h) [0..<length idx] hh = Some h'"
    and hh: "hh = (h @ [map (\<lambda>t. h ! a ! t) idx])[length h :=
                 double_offdiag (map (\<lambda>t. reps ! t div n) idx) (map (\<lambda>t. reps ! t mod n) idx)
                   (map (\<lambda>t. h ! a ! t) idx)]"
    by auto
  let ?D = "double_offdiag (map (\<lambda>t. reps ! t div n) idx) (map (\<lambda>t. reps ! t mod n) idx)
                   (map (\<lambda>t. h ! a ! t) idx)"
  have lenhh: "length hh = Suc (length h)" and hha: "hh ! length h = ?D" and hhb: "hh ! a = h ! a"
    using P(3) unfolding hh by (simp_all add: nth_append)
  from halve_loop_frame[OF hl] P(3) lenhh hhb
  have len: "length h' = Suc (length h)" and same: "h' ! a = h ! a"
    by simp_all
  have lt: "length h < length hh" using lenhh by simp
  from halve_loop_content[OF hl distinct_upt lt]
  have c1: "length (h' ! length h) = length ?D"
    and c2: "\<And>i. i < length ?D \<Longrightarrow> h' ! length h ! i =
          (if i \<in> set [0..<length idx] \<and> map (\<lambda>t. swap_pair n (reps ! t)) idx ! i \<notin> set reps
           then ?D ! i / 2 else ?D ! i)"
    unfolding hha by simp_all
  have lD: "length ?D = length idx" by (simp add: double_offdiag_nth)
  have w: "\<And>t. t < length idx \<Longrightarrow> h' ! length h ! t =
              (if reps ! (idx ! t) div n \<noteq> reps ! (idx ! t) mod n \<and>
                  swap_pair n (reps ! (idx ! t)) \<in> set reps
               then 2 * h ! a ! (idx ! t) else h ! a ! (idx ! t))"
  proof -
    fix t assume t: "t < length idx"
    then have mem: "reps ! (idx ! t) \<in> set reps" using P(1) by simp
    have Dt: "?D ! t = (if reps ! (idx ! t) div n \<noteq> reps ! (idx ! t) mod n
                        then h ! a ! (idx ! t) * 2 else h ! a ! (idx ! t))"
      using t double_offdiag_nth[of "map (\<lambda>t. reps ! t div n) idx" "map (\<lambda>t. reps ! t mod n) idx"
          "map (\<lambda>t. h ! a ! t) idx"] by simp
    show "h' ! length h ! t =
              (if reps ! (idx ! t) div n \<noteq> reps ! (idx ! t) mod n \<and>
                  swap_pair n (reps ! (idx ! t)) \<in> set reps
               then 2 * h ! a ! (idx ! t) else h ! a ! (idx ! t))"
    proof (cases "reps ! (idx ! t) div n = reps ! (idx ! t) mod n")
      case True
      then have "swap_pair n (reps ! (idx ! t)) \<in> set reps"
        using swap_pair_diag mem by simp
      with c2[of t] t lD Dt True show ?thesis by simp
    next
      case False
      with c2[of t] t lD Dt show ?thesis by simp
    qed
  qed
  show ?thesis
    apply (rule exI[of _ a])
    using P allr len same c1 lD w by simp
qed

subsection \<open>The weights of the permutation-reduced pairs\<close>

text \<open>
  Claim C5, as amended. After \<^verbatim>\<open>make_kpairs_ibz\<close> with permutation symmetry, every entry
  \<open>t\<close> of the reduced list is a representative \<open>reps[q]\<close> of the unreduced list, and its
  weight is the unreduced weight \<open>w[q]\<close> doubled exactly when the pair is off the diagonal
  (\<open>i \<noteq> j\<close>) and the exchanged pair \<open>(j, i)\<close> is itself in the unreduced list
  \<^verbatim>\<open>ibz2bz_kk\<close>; in every other case (a diagonal pair, or an exchanged pair that is not a
  representative) it is the unreduced weight itself: line 180 doubles it and line 183
  halves it again.
\<close>

theorem s2_weight_rule:
  assumes "make_kpairs_ibz env True (kp, h) = Some (kp', h')"
  shows "\<exists>reps a w reps_s2 a2 w2.
     ibz2bz_kk kp' = Some reps \<and> ibz_kk_weight kp' = Some a \<and> deref h' a = Some w \<and>
     ibz2bz_kk_s2 kp' = Some reps_s2 \<and> ibz_kk_s2_weight kp' = Some a2 \<and>
     deref h' a2 = Some w2 \<and> length w2 = length reps_s2 \<and>
     (\<forall>t<length reps_s2. \<exists>q<length reps. q < length w \<and> reps ! q = reps_s2 ! t \<and>
        w2 ! t = (if reps_s2 ! t div nkpts kp \<noteq> reps_s2 ! t mod nkpts kp \<and>
                     swap_pair (nkpts kp) (reps_s2 ! t) \<in> set reps
                  then 2 * w ! q else w ! q))"
proof -
  let ?n = "nkpts kp"
  from make_kpairs_ibz_TrueD[OF assms] obtain kp1 h1 reps y z u w0 where
    kp1: "kp1 = kp\<lparr>ibz2bz_kk := Some reps, bz2ibz_kk := y, kk_group := z, kk_sym_group := u,
                     ibz_kk_weight := Some (length h)\<rparr>"
    and ps: "permutation_step ?n reps (kp1, h1) = Some (kp', h')"
    by blast
  have allr: "ibz2bz_kk kp1 = Some reps" unfolding kp1 by simp
  define idx where "idx = np_unique_index (map (pair_key ?n) reps)"
  from permutation_step_weights[OF ps allr, folded idx_def] obtain a where
    W: "a < length h1" "\<forall>t\<in>set idx. t < length reps \<and> t < length (h1 ! a)"
       "ibz2bz_kk_s2 kp' = Some (map (\<lambda>t. reps ! t) idx)"
       "ibz_kk_s2_weight kp' = Some (length h1)"
       "ibz2bz_kk kp' = Some reps" "ibz_kk_weight kp' = Some a"
       "length h' = Suc (length h1)" "h' ! a = h1 ! a"
       "length (h' ! length h1) = length idx"
       "\<forall>t<length idx. h' ! length h1 ! t =
              (if reps ! (idx ! t) div ?n \<noteq> reps ! (idx ! t) mod ?n \<and>
                  swap_pair ?n (reps ! (idx ! t)) \<in> set reps
               then 2 * h1 ! a ! (idx ! t) else h1 ! a ! (idx ! t))"
    by blast
  have d1: "deref h' a = Some (h1 ! a)" using W(1,7,8) by (simp add: deref_def)
  have d2: "deref h' (length h1) = Some (h' ! length h1)" using W(7) by (simp add: deref_def)
  have main: "\<forall>t<length (map (\<lambda>t. reps ! t) idx). \<exists>q<length reps. q < length (h1 ! a) \<and>
        reps ! q = map (\<lambda>t. reps ! t) idx ! t \<and>
        h' ! length h1 ! t = (if map (\<lambda>t. reps ! t) idx ! t div ?n \<noteq> map (\<lambda>t. reps ! t) idx ! t mod ?n \<and>
                     swap_pair ?n (map (\<lambda>t. reps ! t) idx ! t) \<in> set reps
                  then 2 * h1 ! a ! q else h1 ! a ! q)"
  proof (intro allI impI)
    fix t assume "t < length (map (\<lambda>t. reps ! t) idx)"
    then have t: "t < length idx" by simp
    then have q: "idx ! t < length reps" "idx ! t < length (h1 ! a)" using W(2) by simp_all
    show "\<exists>q<length reps. q < length (h1 ! a) \<and>
        reps ! q = map (\<lambda>t. reps ! t) idx ! t \<and>
        h' ! length h1 ! t = (if map (\<lambda>t. reps ! t) idx ! t div ?n \<noteq> map (\<lambda>t. reps ! t) idx ! t mod ?n \<and>
                     swap_pair ?n (map (\<lambda>t. reps ! t) idx ! t) \<in> set reps
                  then 2 * h1 ! a ! q else h1 ! a ! q)"
      apply (rule exI[of _ "idx ! t"])
      using q t W(10) by simp
  qed
  show ?thesis
    apply (rule exI[of _ reps], rule exI[of _ a], rule exI[of _ "h1 ! a"],
        rule exI[of _ "map (\<lambda>t. reps ! t) idx"], rule exI[of _ "length h1"],
        rule exI[of _ "h' ! length h1"])
    using W(3,4,5,6,9) d1 d2 main by simp
qed

theorem s2_weight_rule_witness:
  "make_kpairs_ibz ex_env True (ex_kp1, []) = Some (ex_kp, ex_heap) \<and>
   (\<exists>reps a w reps_s2 a2 w2.
     ibz2bz_kk ex_kp = Some reps \<and> ibz_kk_weight ex_kp = Some a \<and> deref ex_heap a = Some w \<and>
     ibz2bz_kk_s2 ex_kp = Some reps_s2 \<and> ibz_kk_s2_weight ex_kp = Some a2 \<and>
     deref ex_heap a2 = Some w2 \<and> length w2 = length reps_s2 \<and>
     (\<forall>t<length reps_s2. \<exists>q<length reps. q < length w \<and> reps ! q = reps_s2 ! t \<and>
        w2 ! t = (if reps_s2 ! t div nkpts ex_kp1 \<noteq> reps_s2 ! t mod nkpts ex_kp1 \<and>
                     swap_pair (nkpts ex_kp1) (reps_s2 ! t) \<in> set reps
                  then 2 * w ! q else w ! q)))"
  using s2_weight_rule[OF ex_make_kpairs_ibz_s2] ex_make_kpairs_ibz_s2 by simp

text \<open>
  Claim C5 as the specification words it fails on the concrete mesh. The reduced entry
  \<open>4\<close> is the diagonal pair \<open>(2, 2)\<close>, flat index \<open>10\<close>, at position \<open>2\<close> of the unreduced
  list: its exchanged pair is itself and is in both lists, so the rule of the
  specification doubles the weight to \<open>1/4\<close>, while the code leaves \<open>1/8\<close>. The reduced
  entry \<open>0\<close> is the pair \<open>(2, 0)\<close>, flat index \<open>8\<close>: the exchanged pair \<open>(0, 2)\<close> is in neither
  list, the rule of the specification gives \<open>1/16\<close>, the code \<open>1/8\<close>.
\<close>

theorem s2_weight_rule_counterexample:
  "make_kpairs_ibz ex_env True (ex_kp1, []) = Some (ex_kp, ex_heap) \<and>
   ibz2bz_kk ex_kp = Some [8, 9, 10, 11, 12, 13, 14, 15] \<and>
   ibz2bz_kk_s2 ex_kp = Some [8, 12, 9, 13, 10, 11, 15] \<and>
   ibz_kk_weight ex_kp = Some 0 \<and> ibz_kk_s2_weight ex_kp = Some 1 \<and>
   ex_heap ! 0 ! 2 = 1 / 8 \<and> ex_heap ! 1 ! 4 = 1 / 8 \<and>
   spec_s2_weight 4 [8, 12, 9, 13, 10, 11, 15] 10 (ex_heap ! 0 ! 2) = 1 / 4 \<and>
   spec_s2_weight 4 [8, 9, 10, 11, 12, 13, 14, 15] 10 (ex_heap ! 0 ! 2) = 1 / 4 \<and>
   ex_heap ! 0 ! 0 = 1 / 8 \<and> ex_heap ! 1 ! 0 = 1 / 8 \<and>
   spec_s2_weight 4 [8, 12, 9, 13, 10, 11, 15] 8 (ex_heap ! 0 ! 0) = 1 / 16 \<and>
   spec_s2_weight 4 [8, 9, 10, 11, 12, 13, 14, 15] 8 (ex_heap ! 0 ! 0) = 1 / 16"
  using ex_make_kpairs_ibz_s2
  by (simp add: ex_kp_def ex_kp2_def ex_kp1_def ex_heap_def ex_heap2_def spec_s2_weight_def swap_pair_def)

subsection \<open>The frame of the permutation reduction\<close>

text \<open>
  Claim C10. A run of \<^verbatim>\<open>make_kpairs_ibz\<close> with permutation symmetry ends in the state of
  the run without it, but for the two attributes \<^verbatim>\<open>ibz2bz_kk_s2\<close> and
  \<^verbatim>\<open>ibz_kk_s2_weight\<close>: the attributes \<^verbatim>\<open>ibz2bz_kk\<close>, \<^verbatim>\<open>bz2ibz_kk\<close> and \<^verbatim>\<open>ibz_kk_weight\<close>
  are the same, every array that was in the store (the array of \<^verbatim>\<open>ibz_kk_weight\<close> among
  them) has the same content, and \<^verbatim>\<open>ibz_kk_s2_weight\<close> is a newly allocated array.
\<close>

theorem permutation_frame:
  assumes "make_kpairs_ibz env True (kp, h) = Some (kp', h')"
  shows "\<exists>kp1 h1. make_kpairs_ibz env False (kp, h) = Some (kp1, h1) \<and>
            ibz2bz_kk kp' = ibz2bz_kk kp1 \<and> bz2ibz_kk kp' = bz2ibz_kk kp1 \<and>
            ibz_kk_weight kp' = ibz_kk_weight kp1 \<and>
            (\<exists>a. ibz_kk_weight kp1 = Some a \<and> deref h1 a \<noteq> None \<and> deref h' a = deref h1 a) \<and>
            length h' = Suc (length h1) \<and> (\<forall>b<length h1. h' ! b = h1 ! b) \<and>
            ibz_kk_s2_weight kp' = Some (length h1) \<and>
            kp' = kp1\<lparr>ibz2bz_kk_s2 := ibz2bz_kk_s2 kp', ibz_kk_s2_weight := ibz_kk_s2_weight kp'\<rparr>"
proof -
  let ?n = "nkpts kp"
  from make_kpairs_ibz_TrueD[OF assms] obtain kp1 h1 reps where
    F: "make_kpairs_ibz env False (kp, h) = Some (kp1, h1)"
    and ps: "permutation_step ?n reps (kp1, h1) = Some (kp', h')"
    by blast
  from permutation_step_SomeD[OF ps] obtain a all_reps s2 hs hh where
    P: "ibz_kk_weight kp1 = Some a" "a < length h1"
       "kp' = kp1\<lparr>ibz2bz_kk_s2 := Some s2, ibz_kk_s2_weight := Some (length h1)\<rparr>"
    and hl: "halve_loop hs all_reps (length h1) [0..<length (np_unique_index (map (pair_key ?n) reps))]
               hh = Some h'"
    and hh: "hh = (h1 @ [map (\<lambda>t. h1 ! a ! t) (np_unique_index (map (pair_key ?n) reps))])[length h1 :=
                 double_offdiag (map (\<lambda>t. reps ! t div ?n) (np_unique_index (map (pair_key ?n) reps)))
                   (map (\<lambda>t. reps ! t mod ?n) (np_unique_index (map (pair_key ?n) reps)))
                   (map (\<lambda>t. h1 ! a ! t) (np_unique_index (map (pair_key ?n) reps)))]"
    by blast
  from halve_loop_frame[OF hl]
  have len: "length h' = Suc (length h1)" and same: "\<And>b. b < length h1 \<Longrightarrow> h' ! b = h1 ! b"
    unfolding hh by (simp_all add: nth_append)
  have d: "deref h1 a \<noteq> None" "deref h' a = deref h1 a"
    using P(2) len same[OF P(2)] by (simp_all add: deref_def)
  show ?thesis
    apply (rule exI[of _ kp1], rule exI[of _ h1])
    using F P(1,3) d len same by simp
qed

theorem permutation_frame_witness:
  "make_kpairs_ibz ex_env True (ex_kp1, []) = Some (ex_kp, ex_heap) \<and>
   (\<exists>kp1 h1. make_kpairs_ibz ex_env False (ex_kp1, []) = Some (kp1, h1) \<and>
            ibz2bz_kk ex_kp = ibz2bz_kk kp1 \<and> bz2ibz_kk ex_kp = bz2ibz_kk kp1 \<and>
            ibz_kk_weight ex_kp = ibz_kk_weight kp1 \<and>
            (\<exists>a. ibz_kk_weight kp1 = Some a \<and> deref h1 a \<noteq> None \<and> deref ex_heap a = deref h1 a) \<and>
            length ex_heap = Suc (length h1) \<and> (\<forall>b<length h1. ex_heap ! b = h1 ! b) \<and>
            ibz_kk_s2_weight ex_kp = Some (length h1) \<and>
            ex_kp = kp1\<lparr>ibz2bz_kk_s2 := ibz2bz_kk_s2 ex_kp, ibz_kk_s2_weight := ibz_kk_s2_weight ex_kp\<rparr>)"
  using permutation_frame[OF ex_make_kpairs_ibz_s2] ex_make_kpairs_ibz_s2 by simp

subsection \<open>Time reversal in \<^verbatim>\<open>build\<close>\<close>




subsection \<open>Transport of orbital coefficients\<close>

text \<open>
  Claim C6. For a BZ index \<open>k\<close> whose lookups succeed, with \<open>m\<close> the coefficient array
  of the representative \<open>bz2ibz[k]\<close>, \<open>oper\<close> the connecting operation and \<open>tr\<close> the
  time-reversal flag of \<open>k\<close>: \<^verbatim>\<open>transform_mo_coeff_k\<close> returns \<open>m\<close> itself when \<open>oper\<close> is the
  identity and the flag is zero, the complex conjugate of \<open>m\<close> when \<open>oper\<close> is the identity
  and the flag is set, and the complex conjugate of \<open>m\<close>, whatever the flag, when \<open>oper\<close> is
  the inversion (an operation that is not the identity).
\<close>

theorem transform_mo_coeff_k_cases:
  assumes "getitem (bz2ibz kp) k = Some i"
    and "kpts_scaled_ibz kp = Some sc" and "getitem sc i = Some ks"
    and "getitem (stars_ops_bz kp) k = Some iop"
    and "getitem (ops kp) (int iop) = Some oper"
    and "getitem (time_reversal_symm_bz kp) k = Some tr"
    and "getitem mo_coeff_ibz i = Some m"
  shows "(is_eye oper \<and> tr = 0 \<longrightarrow> transform_mo_coeff_k env kp mo_coeff_ibz k = Some m) \<and>
         (is_eye oper \<and> tr \<noteq> 0 \<longrightarrow>
            transform_mo_coeff_k env kp mo_coeff_ibz k = Some (np_conj m)) \<and>
         (\<not> is_eye oper \<and> is_inversion oper \<longrightarrow>
            transform_mo_coeff_k env kp mo_coeff_ibz k = Some (np_conj m))"
  using assms by (simp add: transform_mo_coeff_k_def)

theorem transform_mo_coeff_k_cases_witness:
  "transform_mo_coeff_k ex_env ex_kp ex_mo 2 = Some (ex_mo ! 0) \<and>
   transform_mo_coeff_k ex_env (ex_kp\<lparr>time_reversal_symm_bz := [0, 0, 1, 0]\<rparr>) ex_mo 2 =
     Some (np_conj (ex_mo ! 0)) \<and>
   transform_mo_coeff_k ex_env ex_kp ex_mo 0 = Some (np_conj (ex_mo ! 1)) \<and>
   transform_mo_coeff_k ex_env (ex_kp\<lparr>time_reversal_symm_bz := [1, 0, 0, 0]\<rparr>) ex_mo 0 =
     Some (np_conj (ex_mo ! 1))"
proof -
  let ?kpa = "ex_kp\<lparr>time_reversal_symm_bz := [0, 0, 1, 0]\<rparr>"
  let ?kpb = "ex_kp\<lparr>time_reversal_symm_bz := [1, 0, 0, 0]\<rparr>"
  have sc: "kpts_scaled_ibz ex_kp = Some [[5 / 8, 0, 0], [7 / 8, 0, 0]]"
    "kpts_scaled_ibz ?kpa = Some [[5 / 8, 0, 0], [7 / 8, 0, 0]]"
    "kpts_scaled_ibz ?kpb = Some [[5 / 8, 0, 0], [7 / 8, 0, 0]]"
    by (simp_all add: ex_kp_def ex_kp2_def ex_kp1_def)
  have i2: "getitem (bz2ibz ex_kp) 2 = Some 0" "getitem (bz2ibz ?kpa) 2 = Some 0"
    and i0: "getitem (bz2ibz ex_kp) 0 = Some 1" "getitem (bz2ibz ?kpb) 0 = Some 1"
    by (simp_all add: ex_kp_def ex_kp2_def ex_kp1_def getitem_def py_index_def)
  have s0: "getitem [[5 / 8, 0, 0], [7 / 8, 0, 0 :: rat]] 0 = Some [5 / 8, 0, 0]"
    and s1: "getitem [[5 / 8, 0, 0], [7 / 8, 0, 0 :: rat]] 1 = Some [7 / 8, 0, 0]"
    by (simp_all add: getitem_def py_index_def)
  have o2: "getitem (stars_ops_bz ex_kp) 2 = Some 0" "getitem (stars_ops_bz ?kpa) 2 = Some 0"
    and o0: "getitem (stars_ops_bz ex_kp) 0 = Some 1" "getitem (stars_ops_bz ?kpb) 0 = Some 1"
    by (simp_all add: ex_kp_def ex_kp2_def ex_kp1_def getitem_def py_index_def)
  have p0: "getitem (ops ex_kp) (int 0) = Some (ex_ops ! 0)"
    "getitem (ops ?kpa) (int 0) = Some (ex_ops ! 0)"
    and p1: "getitem (ops ex_kp) (int 1) = Some (ex_ops ! 1)"
    "getitem (ops ?kpb) (int 1) = Some (ex_ops ! 1)"
    by (simp_all add: ex_kp_def ex_kp2_def ex_kp1_def ex_ops_def getitem_def py_index_def)
  have t: "getitem (time_reversal_symm_bz ex_kp) 2 = Some 0"
    "getitem (time_reversal_symm_bz ?kpa) 2 = Some 1"
    "getitem (time_reversal_symm_bz ex_kp) 0 = Some 0"
    "getitem (time_reversal_symm_bz ?kpb) 0 = Some 1"
    by (simp_all add: ex_kp_def ex_kp2_def ex_kp1_def getitem_def py_index_def)
  have m: "getitem ex_mo 0 = Some (ex_mo ! 0)" "getitem ex_mo 1 = Some (ex_mo ! 1)"
    by (simp_all add: ex_mo_def getitem_def py_index_def)
  have f: "is_eye (ex_ops ! 0)" "\<not> is_eye (ex_ops ! 1)" "is_inversion (ex_ops ! 1)"
    by (simp_all add: ex_ops_def)
  from transform_mo_coeff_k_cases[OF i2(1) sc(1) s0 o2(1) p0(1) t(1) m(1), of ex_env]
    transform_mo_coeff_k_cases[OF i2(2) sc(2) s0 o2(2) p0(2) t(2) m(1), of ex_env]
    transform_mo_coeff_k_cases[OF i0(1) sc(1) s1 o0(1) p1(1) t(3) m(2), of ex_env]
    transform_mo_coeff_k_cases[OF i0(2) sc(3) s1 o0(2) p1(2) t(4) m(2), of ex_env]
    f
  show ?thesis by simp
qed

subsection \<open>The occupation check\<close>

lemma for_each_two_valued:
  "(\<forall>x\<in>set xs. body x = Inr () \<or> body x = Inl err) \<Longrightarrow>
     for_each xs body = (if \<forall>x\<in>set xs. body x = Inr () then Inr () else Inl err)"
  by (induction xs) (auto split: sum.splits)

lemma list_all_zip_nth:
  "length u = n \<Longrightarrow> length v = n \<Longrightarrow>
     list_all P (map f (zip u v)) \<longleftrightarrow> (\<forall>e<n. P (f (u ! e, v ! e)))"
  by (auto simp: list_all_length)

lemma check_pair_cases:
  assumes "s ! i < length mo_occ" "s ! j < length mo_occ"
    and "length (mo_occ ! (s ! i)) = nmo" "length (mo_occ ! (s ! j)) = nmo"
  shows "check_pair mo_occ tol s i j =
           (if \<forall>e<nmo. \<bar>mo_occ ! (s ! i) ! e - mo_occ ! (s ! j) ! e\<bar> < tol then Inr ()
            else Inl (RuntimeError ''Symmetry broken''))"
  using assms
  by (simp add: check_pair_def lookup_def getitem_nat np_sub_def list_all_zip_nth[where n = nmo])

lemma collect_ibz_ok:
  "\<forall>k\<in>set ks. k < length reps \<and> reps ! k < length mo_occ \<Longrightarrow>
     collect_ibz mo_occ reps ks = Inr (map (\<lambda>k. mo_occ ! (reps ! k)) ks)"
  by (induction ks) (auto simp: lookup_def getitem_nat)

text \<open>
  Claim C7. For occupations given as a rectangular array with a row for every index
  that the orbits and the representatives name: \<^verbatim>\<open>check_mo_occ_symmetry\<close> raises the
  \<^verbatim>\<open>RuntimeError\<close> "Symmetry broken" exactly when some orbit has two members (at positions
  \<open>i < j\<close> of its list) whose occupation vectors differ by at least the tolerance in some
  entry; otherwise it returns the rows of the representatives,
  \<open>mo_occ[ibz2bz[i]]\<close> for \<open>i = 0, \<dots>, nkpts_ibz - 1\<close>, in that order.
\<close>

theorem check_mo_occ_symmetry_iff:
  assumes valid: "\<forall>s\<in>set (stars kp). \<forall>m\<in>set s. m < length mo_occ"
    and rect: "\<forall>r\<in>set mo_occ. length r = nmo"
    and reps: "nkpts_ibz kp \<le> length (ibz2bz kp)" "\<forall>r\<in>set (ibz2bz kp). r < length mo_occ"
  shows "(check_mo_occ_symmetry kp mo_occ tol = Inl (RuntimeError ''Symmetry broken'') \<longleftrightarrow>
            (\<exists>s\<in>set (stars kp). \<exists>i j. i < j \<and> j < length s \<and>
                (\<exists>e<nmo. tol \<le> \<bar>mo_occ ! (s ! i) ! e - mo_occ ! (s ! j) ! e\<bar>))) \<and>
         (\<not> (\<exists>s\<in>set (stars kp). \<exists>i j. i < j \<and> j < length s \<and>
                (\<exists>e<nmo. tol \<le> \<bar>mo_occ ! (s ! i) ! e - mo_occ ! (s ! j) ! e\<bar>)) \<longrightarrow>
            check_mo_occ_symmetry kp mo_occ tol =
              Inr (map (\<lambda>i. mo_occ ! (ibz2bz kp ! i)) [0..<nkpts_ibz kp]))"
proof -
  let ?err = "RuntimeError ''Symmetry broken''"
  let ?ok = "\<lambda>s i j. \<forall>e<nmo. \<bar>mo_occ ! (s ! i) ! e - mo_occ ! (s ! j) ! e\<bar> < tol"
  have pair: "check_pair mo_occ tol s i j = (if ?ok s i j then Inr () else Inl ?err)"
    if "s \<in> set (stars kp)" "i < length s" "j < length s" for s i j
  proof -
    from that valid have a: "s ! i < length mo_occ" "s ! j < length mo_occ" by simp_all
    with rect have "length (mo_occ ! (s ! i)) = nmo" "length (mo_occ ! (s ! j)) = nmo" by simp_all
    with a show ?thesis by (rule check_pair_cases)
  qed
  have inner: "for_each [i + 1..<length s] (\<lambda>j. check_pair mo_occ tol s i j) =
                 (if \<forall>j. i < j \<and> j < length s \<longrightarrow> ?ok s i j then Inr () else Inl ?err)"
    if "s \<in> set (stars kp)" "i < length s" for s i
  proof -
    have "for_each [i + 1..<length s] (\<lambda>j. check_pair mo_occ tol s i j) =
            (if \<forall>j\<in>set [i + 1..<length s]. check_pair mo_occ tol s i j = Inr () then Inr () else Inl ?err)"
    proof (rule for_each_two_valued, intro ballI)
      fix j assume "j \<in> set [i + 1..<length s]"
      then have "j < length s" by simp
      from pair[OF that this]
      show "check_pair mo_occ tol s i j = Inr () \<or> check_pair mo_occ tol s i j = Inl ?err"
        by metis
    qed
    also have "(\<forall>j\<in>set [i + 1..<length s]. check_pair mo_occ tol s i j = Inr ()) \<longleftrightarrow>
                 (\<forall>j. i < j \<and> j < length s \<longrightarrow> ?ok s i j)"
    proof -
      have "\<And>j. j \<in> set [i + 1..<length s] \<Longrightarrow>
               (check_pair mo_occ tol s i j = Inr ()) = ?ok s i j"
        using pair[OF that] by simp
      then have "(\<forall>j\<in>set [i + 1..<length s]. check_pair mo_occ tol s i j = Inr ()) \<longleftrightarrow>
                 (\<forall>j\<in>set [i + 1..<length s]. ?ok s i j)"
        by blast
      then show ?thesis by auto
    qed
    finally show ?thesis .
  qed
  have middle: "for_each [0..<length s] (\<lambda>i. for_each [i + 1..<length s] (\<lambda>j. check_pair mo_occ tol s i j)) =
                 (if \<forall>i j. i < j \<and> j < length s \<longrightarrow> ?ok s i j then Inr () else Inl ?err)"
    if "s \<in> set (stars kp)" for s
  proof -
    have "for_each [0..<length s] (\<lambda>i. for_each [i + 1..<length s] (\<lambda>j. check_pair mo_occ tol s i j)) =
            (if \<forall>i\<in>set [0..<length s]. for_each [i + 1..<length s] (\<lambda>j. check_pair mo_occ tol s i j) = Inr ()
             then Inr () else Inl ?err)"
    proof (rule for_each_two_valued, intro ballI)
      fix i assume "i \<in> set [0..<length s]"
      then have "i < length s" by simp
      from inner[OF that this]
      show "for_each [i + 1..<length s] (\<lambda>j. check_pair mo_occ tol s i j) = Inr () \<or>
            for_each [i + 1..<length s] (\<lambda>j. check_pair mo_occ tol s i j) = Inl ?err"
        by metis
    qed
    also have "(\<forall>i\<in>set [0..<length s]. for_each [i + 1..<length s] (\<lambda>j. check_pair mo_occ tol s i j) = Inr ()) \<longleftrightarrow>
                 (\<forall>i j. i < j \<and> j < length s \<longrightarrow> ?ok s i j)"
    proof -
      have "\<And>i. i \<in> set [0..<length s] \<Longrightarrow>
               (for_each [i + 1..<length s] (\<lambda>j. check_pair mo_occ tol s i j) = Inr ()) =
               (\<forall>j. i < j \<and> j < length s \<longrightarrow> ?ok s i j)"
        using inner[OF that] by simp
      then have "(\<forall>i\<in>set [0..<length s]. for_each [i + 1..<length s] (\<lambda>j. check_pair mo_occ tol s i j) = Inr ()) \<longleftrightarrow>
                 (\<forall>i\<in>set [0..<length s]. \<forall>j. i < j \<and> j < length s \<longrightarrow> ?ok s i j)"
        by blast
      also have "\<dots> \<longleftrightarrow> (\<forall>i j. i < j \<and> j < length s \<longrightarrow> ?ok s i j)"
        by auto
      finally show ?thesis .
    qed
    finally show ?thesis .
  qed
  let ?loops = "for_each (stars kp) (\<lambda>bz_k.
             for_each [0..<length bz_k] (\<lambda>i.
               for_each [i + 1..<length bz_k] (\<lambda>j. check_pair mo_occ tol bz_k i j)))"
  have "?loops = (if \<forall>s\<in>set (stars kp). for_each [0..<length s] (\<lambda>i.
               for_each [i + 1..<length s] (\<lambda>j. check_pair mo_occ tol s i j)) = Inr ()
            then Inr () else Inl ?err)"
  proof (rule for_each_two_valued, intro ballI)
    fix s assume "s \<in> set (stars kp)"
    from middle[OF this]
    show "for_each [0..<length s] (\<lambda>i.
               for_each [i + 1..<length s] (\<lambda>j. check_pair mo_occ tol s i j)) = Inr () \<or>
          for_each [0..<length s] (\<lambda>i.
               for_each [i + 1..<length s] (\<lambda>j. check_pair mo_occ tol s i j)) = Inl ?err"
      by metis
  qed
  also have "(\<forall>s\<in>set (stars kp). for_each [0..<length s] (\<lambda>i.
               for_each [i + 1..<length s] (\<lambda>j. check_pair mo_occ tol s i j)) = Inr ()) \<longleftrightarrow>
             (\<forall>s\<in>set (stars kp). \<forall>i j. i < j \<and> j < length s \<longrightarrow> ?ok s i j)"
  proof -
    have "\<And>s. s \<in> set (stars kp) \<Longrightarrow>
            (for_each [0..<length s] (\<lambda>i.
               for_each [i + 1..<length s] (\<lambda>j. check_pair mo_occ tol s i j)) = Inr ()) =
            (\<forall>i j. i < j \<and> j < length s \<longrightarrow> ?ok s i j)"
      using middle by simp
    then show ?thesis by blast
  qed
  finally have outer: "?loops = (if \<forall>s\<in>set (stars kp). \<forall>i j. i < j \<and> j < length s \<longrightarrow> ?ok s i j
                                then Inr () else Inl ?err)" .
  have coll: "collect_ibz mo_occ (ibz2bz kp) [0..<nkpts_ibz kp] =
                Inr (map (\<lambda>i. mo_occ ! (ibz2bz kp ! i)) [0..<nkpts_ibz kp])"
    by (rule collect_ibz_ok) (use reps in auto)
  have neg: "(\<exists>s\<in>set (stars kp). \<exists>i j. i < j \<and> j < length s \<and>
                (\<exists>e<nmo. tol \<le> \<bar>mo_occ ! (s ! i) ! e - mo_occ ! (s ! j) ! e\<bar>)) \<longleftrightarrow>
             \<not> (\<forall>s\<in>set (stars kp). \<forall>i j. i < j \<and> j < length s \<longrightarrow> ?ok s i j)"
    by (auto simp: not_less)
  show ?thesis
    unfolding neg check_mo_occ_symmetry_def outer coll by simp
qed

theorem check_mo_occ_symmetry_iff_witness:
  "check_mo_occ_symmetry ex_kp (replicate 4 [2, 0]) (1 / 1000000) = Inr [[2, 0], [2, 0]] \<and>
   check_mo_occ_symmetry ex_kp [[2, 0], [2, 0], [1, 1], [2, 0]] (1 / 1000000) =
     Inl (RuntimeError ''Symmetry broken'')"
proof -
  let ?tol = "1 / 1000000 :: rat"
  let ?good = "replicate 4 [2, 0 :: rat]"
  let ?bad = "[[2, 0], [2, 0], [1, 1], [2, 0 :: rat]]"
  have st: "stars ex_kp = [[1, 2], [0, 3]]" and rp: "ibz2bz ex_kp = [2, 3]"
    and ni: "nkpts_ibz ex_kp = 2"
    by (simp_all add: ex_kp_def ex_kp2_def ex_kp1_def)
  have v1: "\<forall>s\<in>set (stars ex_kp). \<forall>m\<in>set s. m < length ?good"
    and v2: "\<forall>s\<in>set (stars ex_kp). \<forall>m\<in>set s. m < length ?bad"
    by (simp_all add: st)
  have r1: "\<forall>r\<in>set ?good. length r = 2" and r2: "\<forall>r\<in>set ?bad. length r = 2"
    by simp_all
  have p: "nkpts_ibz ex_kp \<le> length (ibz2bz ex_kp)" by (simp add: rp ni)
  have q1: "\<forall>r\<in>set (ibz2bz ex_kp). r < length ?good"
    and q2: "\<forall>r\<in>set (ibz2bz ex_kp). r < length ?bad"
    by (simp_all add: rp)
  note good = check_mo_occ_symmetry_iff[OF v1 r1 p q1, of ?tol]
  note bad = check_mo_occ_symmetry_iff[OF v2 r2 p q2, of ?tol]
  have same: "\<not> (\<exists>s\<in>set (stars ex_kp). \<exists>i j. i < j \<and> j < length s \<and>
                (\<exists>e<2. ?tol \<le> \<bar>?good ! (s ! i) ! e - ?good ! (s ! j) ! e\<bar>))"
  proof
    assume "\<exists>s\<in>set (stars ex_kp). \<exists>i j. i < j \<and> j < length s \<and>
                (\<exists>e<2. ?tol \<le> \<bar>?good ! (s ! i) ! e - ?good ! (s ! j) ! e\<bar>)"
    then obtain s i j e where s: "s \<in> set (stars ex_kp)" and ij: "i < j" "j < length s"
      and e: "?tol \<le> \<bar>?good ! (s ! i) ! e - ?good ! (s ! j) ! e\<bar>"
      by blast
    from s ij v1 have "s ! i < 4" "s ! j < 4" by simp_all
    then have "?good ! (s ! i) = ?good ! (s ! j)" by simp
    with e show False by simp
  qed
  have diff: "\<exists>s\<in>set (stars ex_kp). \<exists>i j. i < j \<and> j < length s \<and>
                (\<exists>e<2. ?tol \<le> \<bar>?bad ! (s ! i) ! e - ?bad ! (s ! j) ! e\<bar>)"
    unfolding st
    by (rule bexI[of _ "[1, 2]"], rule exI[of _ 0], rule exI[of _ 1], simp,
        rule exI[of _ 0], simp_all)
  from good same have g: "check_mo_occ_symmetry ex_kp ?good ?tol =
      Inr (map (\<lambda>i. ?good ! (ibz2bz ex_kp ! i)) [0..<nkpts_ibz ex_kp])"
    by blast
  have "map (\<lambda>i. ?good ! (ibz2bz ex_kp ! i)) [0..<nkpts_ibz ex_kp] = [[2, 0], [2, 0]]"
    by (simp add: rp ni upt_rec)
  with g bad diff show ?thesis by simp
qed

subsection \<open>The pair list for density fitting\<close>

lemma member_kpt_iff: "j < length ks \<Longrightarrow> j \<in> set (member_kpt k ks) \<longleftrightarrow> ks ! j = k"
  by (auto simp: member_kpt_def)

lemma those_map_total: "(\<And>x. x \<in> set xs \<Longrightarrow> f x = Some (g x)) \<Longrightarrow> those (map f xs) = Some (map g xs)"
  by (induction xs) auto

lemma concat_map_if_filter:
  "concat (map (\<lambda>j. if P j then [f j] else []) xs) = map f (filter P xs)"
  by (induction xs) auto

text \<open>
  Claim C8, as amended. \<^verbatim>\<open>make_gdf_kptij_lst_jk\<close> returns the pair
  \<open>(kpts[i], kpts[i])\<close> for every BZ index \<open>i\<close>, followed by the pair
  \<open>(kpts_ibz[i], kpts[j])\<close> for every representative \<open>i\<close> and every BZ index \<open>j\<close> whose
  k-point differs from the representative's own k-point \<open>kpts_ibz[i]\<close>. The other members
  of the representative's orbit are paired with it.
\<close>

theorem make_gdf_kptij_lst_jk_eq:
  assumes "nkpts kp = length (kpts kp)" and "nkpts_ibz kp = length (kpts_ibz kp)"
  shows "make_gdf_kptij_lst_jk kp =
           Some (map (\<lambda>i. (kpts kp ! i, kpts kp ! i)) [0..<nkpts kp] @
                 concat (map (\<lambda>i. map (\<lambda>j. (kpts_ibz kp ! i, kpts kp ! j))
                                    (filter (\<lambda>j. kpts kp ! j \<noteq> kpts_ibz kp ! i) [0..<nkpts kp]))
                         [0..<nkpts_ibz kp]))"
proof -
  have d: "those (map (\<lambda>i. do { k \<leftarrow> getitem (kpts kp) (int i); Some (k, k) }) [0..<nkpts kp]) =
             Some (map (\<lambda>i. (kpts kp ! i, kpts kp ! i)) [0..<nkpts kp])"
    by (rule those_map_total) (simp add: getitem_nat assms)
  have inner: "those (map (\<lambda>j. do { kj \<leftarrow> getitem (kpts kp) (int j);
                      Some (if j \<notin> set (member_kpt ki (kpts kp)) then [(ki, kj)] else []) })
                  [0..<nkpts kp]) =
               Some (map (\<lambda>j. if kpts kp ! j \<noteq> ki then [(ki, kpts kp ! j)] else []) [0..<nkpts kp])" for ki
    by (rule those_map_total) (simp add: getitem_nat assms member_kpt_iff)
  have r: "those (map (\<lambda>i. do {
                   ki \<leftarrow> getitem (kpts_ibz kp) (int i);
                   let wh = member_kpt ki (kpts kp);
                   rows \<leftarrow> those (map (\<lambda>j.
                             do {
                               kj \<leftarrow> getitem (kpts kp) (int j);
                               Some (if j \<notin> set wh then [(ki, kj)] else [])
                             }) [0..<nkpts kp]);
                   Some (concat rows)
                 }) [0..<nkpts_ibz kp]) =
           Some (map (\<lambda>i. map (\<lambda>j. (kpts_ibz kp ! i, kpts kp ! j))
                                    (filter (\<lambda>j. kpts kp ! j \<noteq> kpts_ibz kp ! i) [0..<nkpts kp]))
                         [0..<nkpts_ibz kp])"
  proof (rule those_map_total)
    fix i assume "i \<in> set [0..<nkpts_ibz kp]"
    then have i: "i < length (kpts_ibz kp)" using assms(2) by simp
    show "do {
                   ki \<leftarrow> getitem (kpts_ibz kp) (int i);
                   let wh = member_kpt ki (kpts kp);
                   rows \<leftarrow> those (map (\<lambda>j.
                             do {
                               kj \<leftarrow> getitem (kpts kp) (int j);
                               Some (if j \<notin> set wh then [(ki, kj)] else [])
                             }) [0..<nkpts kp]);
                   Some (concat rows)
                 } =
          Some (map (\<lambda>j. (kpts_ibz kp ! i, kpts kp ! j))
                                    (filter (\<lambda>j. kpts kp ! j \<noteq> kpts_ibz kp ! i) [0..<nkpts kp]))"
      unfolding Let_def getitem_nat[OF i] bind.bind_lunit inner
      by (simp add: concat_map_if_filter)
  qed
  show ?thesis
    unfolding make_gdf_kptij_lst_jk_def d r by simp
qed

lemma ex_kptij: "make_gdf_kptij_lst_jk ex_kp =
   Some [([1 / 8, 0, 0], [1 / 8, 0, 0]), ([3 / 8, 0, 0], [3 / 8, 0, 0]),
         ([5 / 8, 0, 0], [5 / 8, 0, 0]), ([7 / 8, 0, 0], [7 / 8, 0, 0]),
         ([5 / 8, 0, 0], [1 / 8, 0, 0]), ([5 / 8, 0, 0], [3 / 8, 0, 0]),
         ([5 / 8, 0, 0], [7 / 8, 0, 0]),
         ([7 / 8, 0, 0], [1 / 8, 0, 0]), ([7 / 8, 0, 0], [3 / 8, 0, 0]),
         ([7 / 8, 0, 0], [5 / 8, 0, 0])]"
  by code_simp

lemma ex_spec_kptij: "spec_kptij_lst ex_kp =
   [([1 / 8, 0, 0], [1 / 8, 0, 0]), ([3 / 8, 0, 0], [3 / 8, 0, 0]),
    ([5 / 8, 0, 0], [5 / 8, 0, 0]), ([7 / 8, 0, 0], [7 / 8, 0, 0]),
    ([5 / 8, 0, 0], [1 / 8, 0, 0]), ([5 / 8, 0, 0], [7 / 8, 0, 0]),
    ([7 / 8, 0, 0], [3 / 8, 0, 0]), ([7 / 8, 0, 0], [5 / 8, 0, 0])]"
  by code_simp

theorem make_gdf_kptij_lst_jk_eq_witness:
  "nkpts ex_kp = length (kpts ex_kp) \<and> nkpts_ibz ex_kp = length (kpts_ibz ex_kp) \<and>
   make_gdf_kptij_lst_jk ex_kp =
     Some (map (\<lambda>i. (kpts ex_kp ! i, kpts ex_kp ! i)) [0..<nkpts ex_kp] @
           concat (map (\<lambda>i. map (\<lambda>j. (kpts_ibz ex_kp ! i, kpts ex_kp ! j))
                              (filter (\<lambda>j. kpts ex_kp ! j \<noteq> kpts_ibz ex_kp ! i) [0..<nkpts ex_kp]))
                   [0..<nkpts_ibz ex_kp]))"
proof -
  have a: "nkpts ex_kp = length (kpts ex_kp)" and b: "nkpts_ibz ex_kp = length (kpts_ibz ex_kp)"
    by (simp_all add: ex_kp_def ex_kp2_def ex_kp1_def ex_mesh_def)
  from make_gdf_kptij_lst_jk_eq[OF a b] a b show ?thesis by simp
qed

text \<open>
  Claim C8 as the specification words it fails on the concrete mesh: the first
  representative, \<open>5/8\<close>, has the orbit \<open>{1, 2}\<close>, and the code pairs it with the k-point
  \<open>1\<close> of its own orbit, which the wording excludes.
\<close>

theorem make_gdf_kptij_lst_jk_counterexample:
  "build ex_env True True True True (ex_kp0, []) = Some (ex_kp, ex_heap) \<and>
   stars ex_kp ! 0 = [1, 2] \<and>
   make_gdf_kptij_lst_jk ex_kp \<noteq> Some (spec_kptij_lst ex_kp) \<and>
   (\<exists>l. make_gdf_kptij_lst_jk ex_kp = Some l \<and>
        (kpts_ibz ex_kp ! 0, kpts ex_kp ! 1) \<in> set l \<and>
        (kpts_ibz ex_kp ! 0, kpts ex_kp ! 1) \<notin> set (spec_kptij_lst ex_kp))"
  unfolding ex_kptij ex_spec_kptij using ex_build
  by (simp add: ex_kp_def ex_kp2_def ex_kp1_def ex_mesh_def)

subsection \<open>The claim loop\<close>





















subsection \<open>Counting the members of the orbits\<close>










subsection \<open>The concrete table\<close>


lemma all_less_4: "(\<forall>k<4::nat. P k) \<longleftrightarrow> P 0 \<and> P 1 \<and> P 2 \<and> P 3"
proof -
  have "\<And>k::nat. k < 4 \<longleftrightarrow> k = 0 \<or> k = 1 \<or> k = 2 \<or> k = 3" by arith
  then show ?thesis by auto
qed

lemma all_less_2: "(\<forall>k<2::nat. P k) \<longleftrightarrow> P 0 \<and> P 1"
proof -
  have "\<And>k::nat. k < 2 \<longleftrightarrow> k = 0 \<or> k = 1" by arith
  then show ?thesis by auto
qed

lemma ex_less_2: "(\<exists>k<2::nat. P k) \<longleftrightarrow> P 0 \<or> P 1"
proof -
  have "\<And>k::nat. k < 2 \<longleftrightarrow> k = 0 \<or> k = 1" by arith
  then show ?thesis by auto
qed



lemma ex_group: "group_table 4 2 ex_table"
  unfolding group_table_def all_less_4 all_less_2 ex_less_2
  by (simp add: ex_table_def)



subsection \<open>Orbits of k-points\<close>











end
